theory Spec2Isabelle
  imports Main "HOL-Library.Word" "HOL-Library.AList" "HOL-Library.Sublist"
begin

section \<open>C library and GLib primitives\<close>

text \<open>
  A C string is a \<open>string\<close> (the bytes before the terminating NUL); a nullable
  \<open>gchar *\<close> is a \<open>string option\<close>, \<open>None\<close> being \<open>NULL\<close>.
\<close>

definition tolower_c :: "char \<Rightarrow> char" where
  "tolower_c c =
     (let n = (of_char c :: nat) in if 65 \<le> n \<and> n \<le> 90 then char_of (n + 32) else c)"

text \<open>\<open>strcmp\<close> and \<open>strcasecmp\<close>: the difference of the first pair of bytes that differ.\<close>

fun strcmp :: "string \<Rightarrow> string \<Rightarrow> int" where
  "strcmp [] [] = 0"
| "strcmp [] (b # bs) = - int (of_char b)"
| "strcmp (a # as) [] = int (of_char a)"
| "strcmp (a # as) (b # bs) =
     (if a = b then strcmp as bs else int (of_char a) - int (of_char b))"

fun strcasecmp :: "string \<Rightarrow> string \<Rightarrow> int" where
  "strcasecmp [] [] = 0"
| "strcasecmp [] (b # bs) = - int (of_char (tolower_c b))"
| "strcasecmp (a # as) [] = int (of_char (tolower_c a))"
| "strcasecmp (a # as) (b # bs) =
     (if tolower_c a = tolower_c b then strcasecmp as bs
      else int (of_char (tolower_c a)) - int (of_char (tolower_c b)))"

text \<open>\<open>g_strcmp0\<close>: \<open>strcmp\<close> that accepts \<open>NULL\<close>, which sorts before every string.\<close>

fun g_strcmp0 :: "string option \<Rightarrow> string option \<Rightarrow> int" where
  "g_strcmp0 None None = 0"
| "g_strcmp0 None (Some b) = - 1"
| "g_strcmp0 (Some a) None = 1"
| "g_strcmp0 (Some a) (Some b) = strcmp a b"

text \<open>
  \<open>g_strsplit (string, delimiter, max_tokens)\<close> for a one-byte delimiter: at most
  \<open>max_tokens\<close> pieces, the last one holding the rest of the string; a
  \<open>max_tokens\<close> below 1 stands for \<open>G_MAXINT\<close>; the empty string splits into
  the empty vector.
\<close>

fun split_max :: "nat \<Rightarrow> char \<Rightarrow> string \<Rightarrow> string list" where
  "split_max n d [] = [[]]"
| "split_max n d (c # cs) =
     (if n \<le> 1 then [c # cs]
      else if c = d then [] # split_max (n - 1) d cs
      else (case split_max n d cs of
              p # ps \<Rightarrow> (c # p) # ps
            | [] \<Rightarrow> [[c]]))"

definition G_MAXINT :: int where
  "G_MAXINT = 2147483647"

definition g_strsplit :: "string \<Rightarrow> char \<Rightarrow> int \<Rightarrow> string list" where
  "g_strsplit s d max_tokens =
     (if s = [] then []
      else split_max (nat (if max_tokens < 1 then G_MAXINT else max_tokens)) d s)"

text \<open>
  \<open>atoi\<close>: leading white space, an optional sign, then the decimal digits up to the
  first other byte. A value outside the range of \<open>int\<close> is undefined in ISO C; the
  model follows the C library of the program (glibc), where \<open>atoi (s)\<close> is
  \<open>(int) strtol (s, NULL, 10)\<close>: \<open>strtol\<close> keeps the value within the range of a
  64-bit \<open>long\<close>, with \<open>LONG_MIN\<close> or \<open>LONG_MAX\<close> for a value below or above it,
  and the conversion to \<open>int\<close> keeps the low 32 bits.
\<close>

definition isspace_c :: "char \<Rightarrow> bool" where
  "isspace_c c = (let n = (of_char c :: nat) in n = 32 \<or> (9 \<le> n \<and> n \<le> 13))"

definition isdigit_c :: "char \<Rightarrow> bool" where
  "isdigit_c c = (let n = (of_char c :: nat) in 48 \<le> n \<and> n \<le> 57)"

fun atoi_digits :: "int \<Rightarrow> string \<Rightarrow> int" where
  "atoi_digits acc [] = acc"
| "atoi_digits acc (c # cs) =
     (if isdigit_c c then atoi_digits (acc * 10 + (int (of_char c) - 48)) cs else acc)"

definition LONG_MAX :: int where
  "LONG_MAX = 2 ^ 63 - 1"

definition LONG_MIN :: int where
  "LONG_MIN = - (2 ^ 63)"

definition strtol :: "string \<Rightarrow> int" where
  "strtol s =
     (let v = (case dropWhile isspace_c s of
                 [] \<Rightarrow> 0
               | c # cs \<Rightarrow>
                   if c = CHR ''-'' then - atoi_digits 0 cs
                   else if c = CHR ''+'' then atoi_digits 0 cs
                   else atoi_digits 0 (c # cs))
      in if v < LONG_MIN then LONG_MIN else if LONG_MAX < v then LONG_MAX else v)"

definition atoi :: "string \<Rightarrow> int" where
  "atoi s = sint (word_of_int (strtol s) :: 32 word)"

text \<open>The \<open>%d\<close> conversion of \<open>printf\<close>.\<close>

fun digits_of_nat :: "nat \<Rightarrow> string" where
  "digits_of_nat n =
     (if n < 10 then [char_of (48 + n)]
      else digits_of_nat (n div 10) @ [char_of (48 + n mod 10)])"

definition printf_d :: "int \<Rightarrow> string" where
  "printf_d i = (if i < 0 then CHR ''-'' # digits_of_nat (nat (- i)) else digits_of_nat (nat i))"

text \<open>
  A run of the program either returns, or leaves through \<open>exit\<close> with a status; the
  state reached so far is kept in both cases. A run that stores past the end of a
  buffer has no defined behaviour in C: it is \<open>Buffer_overflow\<close>, and the model
  says nothing about what follows.
\<close>

datatype 'a outcome =
  Returned (final_state: 'a) | Exited (exit_status: int) (final_state: 'a) | Buffer_overflow

fun and_then :: "'a outcome \<Rightarrow> ('a \<Rightarrow> 'a outcome) \<Rightarrow> 'a outcome" where
  "and_then (Returned s) f = f s"
| "and_then (Exited c s) f = Exited c s"
| "and_then Buffer_overflow f = Buffer_overflow"

section \<open>Settings (src/setting.c)\<close>

text \<open>
  \<open>setting.h\<close> is not among the sources. The setting ids are an enumeration of about
  a hundred constants, used only as indices of the array \<open>settings->values\<close>; an id
  is modelled by the name of its enumerator, and the array by an association list
  from ids to settings, in the order in which \<open>settings_init\<close> stores them (a slot
  that holds \<open>NULL\<close> has no entry). The model is of the build with \<open>USE_HEP\<close>,
  \<open>WITH_SSL\<close> and \<open>USE_IPV6\<close> defined.
  The capacity \<open>SETTING_MAX_LEN\<close> of a setting's value buffer is a parameter
  \<open>L\<close> of every function that uses it. The macros \<open>SETTING_ON\<close> and
  \<open>SETTING_OFF\<close> are the two members of the value list \<open>"on,off"\<close> that
  \<open>setting_bool_new\<close> installs.
\<close>

type_synonym SettingId = string

datatype SettingFmt =
  SETTING_FMT_STRING | SETTING_FMT_NUMBER | SETTING_FMT_BOOLEAN | SETTING_FMT_ENUM

record Setting =
  name :: string
  fmt :: SettingFmt
  svalue :: string
  valuelist :: "string list option"

record SettingAlias =
  alias_address :: string
  alias_label :: string

record SettingExtenIp =
  externip_address :: string
  externip :: string

text \<open>
  \<open>keybindings\<close> logs the calls of \<open>key_bind_action\<close> (\<open>True\<close>) and
  \<open>key_unbind_action\<close> (\<open>False\<close>), which belong to the key binding module.
\<close>

record SettingStorage =
  setting_values :: "(SettingId \<times> Setting) list"
  aliases :: "SettingAlias list"
  externips :: "SettingExtenIp list"
  keybindings :: "(bool \<times> string \<times> string) list"

record SettingOpts =
  use_defaults :: bool
  opt_file :: "string option"

definition SETTING_ON :: string where
  "SETTING_ON = ''on''"

definition SETTING_OFF :: string where
  "SETTING_OFF = ''off''"

definition SETTING_UNKNOWN :: SettingId where
  "SETTING_UNKNOWN = ''SETTING_UNKNOWN''"

text \<open>\<open>strncpy (setting->value, value, SETTING_MAX_LEN)\<close> into a zeroed buffer.\<close>

definition setting_number_new :: "nat \<Rightarrow> string \<Rightarrow> string \<Rightarrow> Setting" where
  "setting_number_new L n v =
     \<lparr>name = n, fmt = SETTING_FMT_NUMBER, svalue = take L v, valuelist = None\<rparr>"

definition setting_string_new :: "nat \<Rightarrow> string \<Rightarrow> string \<Rightarrow> Setting" where
  "setting_string_new L n v =
     \<lparr>name = n, fmt = SETTING_FMT_STRING, svalue = take L v, valuelist = None\<rparr>"

definition setting_bool_new :: "nat \<Rightarrow> string \<Rightarrow> string \<Rightarrow> Setting" where
  "setting_bool_new L n v =
     \<lparr>name = n, fmt = SETTING_FMT_BOOLEAN, svalue = take L v,
      valuelist = Some (g_strsplit ''on,off'' CHR '','' (- 1))\<rparr>"

definition setting_enum_new :: "nat \<Rightarrow> string \<Rightarrow> string \<Rightarrow> string \<Rightarrow> Setting" where
  "setting_enum_new L n v vl =
     \<lparr>name = n, fmt = SETTING_FMT_ENUM, svalue = take L v,
      valuelist = Some (g_strsplit vl CHR '','' (- 1))\<rparr>"

definition setting_by_id :: "SettingStorage \<Rightarrow> SettingId \<Rightarrow> Setting option" where
  "setting_by_id st i = map_of (setting_values st) i"

definition setting_by_name :: "SettingStorage \<Rightarrow> string \<Rightarrow> (SettingId \<times> Setting) option" where
  "setting_by_name st n = find (\<lambda>(i, s). g_strcmp0 (Some (name s)) (Some n) = 0) (setting_values st)"

definition setting_id :: "SettingStorage \<Rightarrow> string \<Rightarrow> SettingId" where
  "setting_id st n = (case setting_by_name st n of Some (i, s) \<Rightarrow> i | None \<Rightarrow> SETTING_UNKNOWN)"

definition setting_name :: "SettingStorage \<Rightarrow> SettingId \<Rightarrow> string option" where
  "setting_name st i = map_option name (setting_by_id st i)"

definition setting_format :: "SettingStorage \<Rightarrow> SettingId \<Rightarrow> SettingFmt option" where
  "setting_format st i = map_option fmt (setting_by_id st i)"

definition setting_valid_values :: "SettingStorage \<Rightarrow> SettingId \<Rightarrow> string list option" where
  "setting_valid_values st i = (case setting_by_id st i of Some s \<Rightarrow> valuelist s | None \<Rightarrow> None)"

definition setting_get_value :: "SettingStorage \<Rightarrow> SettingId \<Rightarrow> string option" where
  "setting_get_value st i =
     (case setting_by_id st i of
        Some s \<Rightarrow> if length (svalue s) \<noteq> 0 then Some (svalue s) else None
      | None \<Rightarrow> None)"

text \<open>
  \<open>g_atoi\<close> belongs to \<open>glib-extra\<close>, which is not among the sources: it is a
  parameter of \<open>setting_get_intvalue\<close>.
\<close>

definition setting_get_intvalue :: "(string \<Rightarrow> int) \<Rightarrow> SettingStorage \<Rightarrow> SettingId \<Rightarrow> int" where
  "setting_get_intvalue g_atoi st i =
     (case setting_by_id st i of
        Some s \<Rightarrow> if length (svalue s) \<noteq> 0 then g_atoi (svalue s) else - 1
      | None \<Rightarrow> - 1)"

text \<open>
  \<open>setting_set_value\<close>: nothing happens for an id without a setting
  (\<open>g_return_if_fail\<close>); the buffer is zeroed; a value that does not fit leaves the
  program with \<open>exit (1)\<close>; \<open>NULL\<close> leaves the buffer empty.
\<close>

definition setting_set_value ::
  "nat \<Rightarrow> SettingId \<Rightarrow> string option \<Rightarrow> SettingStorage \<Rightarrow> SettingStorage outcome" where
  "setting_set_value L i v st =
     (case setting_by_id st i of
        None \<Rightarrow> Returned st
      | Some sett \<Rightarrow>
          let zeroed = st\<lparr>setting_values := AList.update i (sett\<lparr>svalue := []\<rparr>) (setting_values st)\<rparr>
          in (case v of
                None \<Rightarrow> Returned zeroed
              | Some s \<Rightarrow>
                  if length s < L
                  then Returned (st\<lparr>setting_values := AList.update i (sett\<lparr>svalue := s\<rparr>) (setting_values st)\<rparr>)
                  else Exited 1 zeroed))"

definition setting_set_intvalue ::
  "nat \<Rightarrow> SettingId \<Rightarrow> int \<Rightarrow> SettingStorage \<Rightarrow> SettingStorage outcome" where
  "setting_set_intvalue L i v st = setting_set_value L i (Some (printf_d v)) st"

definition setting_has_value :: "SettingStorage \<Rightarrow> SettingId \<Rightarrow> string \<Rightarrow> bool" where
  "setting_has_value st i v =
     (case setting_by_id st i of Some sett \<Rightarrow> strcmp (svalue sett) v = 0 | None \<Rightarrow> False)"

definition setting_enabled :: "SettingStorage \<Rightarrow> SettingId \<Rightarrow> bool" where
  "setting_enabled st i = (setting_has_value st i ''on'' \<or> setting_has_value st i ''yes'')"

definition setting_disabled :: "SettingStorage \<Rightarrow> SettingId \<Rightarrow> bool" where
  "setting_disabled st i = (setting_has_value st i ''off'' \<or> setting_has_value st i ''no'')"

text \<open>
  \<open>setting_enum_next\<close>: the value after \<open>value\<close> in the setting's list, the first
  one after the last, and \<open>NULL\<close> for a value that is not in the list. The loop over
  the \<open>NULL\<close>-terminated vector is the recursion \<open>enum_next_loop\<close>, whose first
  argument is the whole list (for the wrap-around).
\<close>

fun enum_next_loop :: "string list \<Rightarrow> string list \<Rightarrow> string \<Rightarrow> string option" where
  "enum_next_loop vl [] v = None"
| "enum_next_loop vl (x # xs) v =
     (if strcmp x v = 0
      then (case xs of vnext # _ \<Rightarrow> Some vnext
                     | [] \<Rightarrow> (case vl of first # _ \<Rightarrow> Some first | [] \<Rightarrow> None))
      else enum_next_loop vl xs v)"

definition setting_enum_next :: "SettingStorage \<Rightarrow> SettingId \<Rightarrow> string option \<Rightarrow> string option" where
  "setting_enum_next st i v =
     (case setting_by_id st i of
        None \<Rightarrow> None
      | Some sett \<Rightarrow>
          if fmt sett \<noteq> SETTING_FMT_ENUM then None
          else (case valuelist sett of
                  None \<Rightarrow> None
                | Some vl \<Rightarrow>
                    (case v of
                       None \<Rightarrow> (case vl of first # _ \<Rightarrow> Some first | [] \<Rightarrow> None)
                     | Some s \<Rightarrow> enum_next_loop vl vl s)))"

definition setting_toggle :: "nat \<Rightarrow> SettingId \<Rightarrow> SettingStorage \<Rightarrow> SettingStorage outcome" where
  "setting_toggle L i st =
     (case setting_by_id st i of
        None \<Rightarrow> Returned st
      | Some sett \<Rightarrow>
          (case fmt sett of
             SETTING_FMT_BOOLEAN \<Rightarrow>
               if setting_enabled st i then setting_set_value L i (Some SETTING_OFF) st
               else setting_set_value L i (Some SETTING_ON) st
           | SETTING_FMT_ENUM \<Rightarrow>
               setting_set_value L i (setting_enum_next st i (Some (svalue sett))) st
           | SETTING_FMT_STRING \<Rightarrow> Returned st
           | SETTING_FMT_NUMBER \<Rightarrow> Returned st))"

text \<open>
  The environment of \<open>settings_init\<close> and \<open>setting_read_file\<close>: the process
  environment (\<open>getenv\<close>), the home and the current directory, the files that
  \<open>fopen\<close> can open with the lines that \<open>fgets\<close> returns for each (shorter than
  the 1024-byte line buffer), and the name of the attribute \<open>ATTR_CALLINDEX\<close>
  (the attribute module is not among the sources).
\<close>

record Env =
  getenv :: "string \<Rightarrow> string option"
  home_dir :: "string option"
  current_dir :: string
  fs :: "string \<Rightarrow> string list option"
  attr_name_callindex :: string

text \<open>
  What \<open>settings_init\<close> has done so far: the settings, and the file names passed to
  \<open>setting_read_file\<close>, in the order of the calls.
\<close>

record Config =
  settings :: SettingStorage
  files_read :: "string list"

text \<open>
  \<open>sscanf (line, "%s %s %[^\t\n]", type, option, value) == 3\<close>: two words
  separated by white space and a third field that runs to the next tab or newline.
  The conversions carry no field width. Each one, once it has matched, stores its
  field and a terminating zero byte into its buffer, \<open>char type[20]\<close>,
  \<open>option[50]\<close> and \<open>value[50]\<close>, before the next conversion is tried: a field
  of 20 bytes or more (of 50 or more for the second and the third) runs past the end
  of its buffer, which is \<open>Overflow\<close>. \<open>No_match\<close> is a return value other than 3.
\<close>

definition scan_word :: "string \<Rightarrow> string \<times> string" where
  "scan_word s =
     (let s1 = dropWhile isspace_c s
      in (takeWhile (\<lambda>c. \<not> isspace_c c) s1, dropWhile (\<lambda>c. \<not> isspace_c c) s1))"

datatype sscanf_result = Scanned string string string | No_match | Overflow

definition sscanf_line :: "string \<Rightarrow> sscanf_result" where
  "sscanf_line line =
     (let (t, r1) = scan_word line
      in if t = [] then No_match
         else if 20 \<le> length t then Overflow
         else
           (let (opt, r2) = scan_word r1
            in if opt = [] then No_match
               else if 50 \<le> length opt then Overflow
               else
                 (let v = takeWhile (\<lambda>c. c \<noteq> CHR 0x09 \<and> c \<noteq> CHR 0x0A) (dropWhile isspace_c r2)
                  in if v = [] then No_match
                     else if 50 \<le> length v then Overflow
                     else Scanned t opt v)))"

definition setting_read_line :: "nat \<Rightarrow> string \<Rightarrow> SettingStorage \<Rightarrow> SettingStorage outcome" where
  "setting_read_line L line st =
     (case line of
        [] \<Rightarrow> Returned st
      | c # _ \<Rightarrow>
          if c = CHR ''#'' then Returned st
          else (case sscanf_line line of
                  No_match \<Rightarrow> Returned st
                | Overflow \<Rightarrow> Buffer_overflow
                | Scanned t opt v \<Rightarrow>
                    if strcasecmp t ''set'' = 0 then
                      (let i = setting_id st opt
                       in if i = SETTING_UNKNOWN then Returned st
                          else setting_set_value L i (Some v) st)
                    else if strcasecmp t ''alias'' = 0 then
                      Returned (st\<lparr>aliases := aliases st @ [\<lparr>alias_address = opt, alias_label = v\<rparr>]\<rparr>)
                    else if strcasecmp t ''externip'' = 0 then
                      Returned (st\<lparr>externips := externips st @ [\<lparr>externip_address = opt, externip = v\<rparr>]\<rparr>)
                    else if strcasecmp t ''bind'' = 0 then
                      Returned (st\<lparr>keybindings := keybindings st @ [(True, opt, v)]\<rparr>)
                    else if strcasecmp t ''unbind'' = 0 then
                      Returned (st\<lparr>keybindings := keybindings st @ [(False, opt, v)]\<rparr>)
                    else Returned st))"

fun setting_read_lines :: "nat \<Rightarrow> string list \<Rightarrow> SettingStorage \<Rightarrow> SettingStorage outcome" where
  "setting_read_lines L [] st = Returned st"
| "setting_read_lines L (line # rest) st =
     and_then (setting_read_line L line st) (setting_read_lines L rest)"

text \<open>
  \<open>setting_read_file\<close>; its return value (\<open>-1\<close> for a file that cannot be
  opened, \<open>0\<close> otherwise) is dropped, as every caller drops it.
\<close>

definition setting_read_file :: "nat \<Rightarrow> Env \<Rightarrow> string \<Rightarrow> Config \<Rightarrow> Config outcome" where
  "setting_read_file L env fname cfg =
     (let cfg1 = cfg\<lparr>files_read := files_read cfg @ [fname]\<rparr>
      in (case fs env fname of
            None \<Rightarrow> Returned cfg1
          | Some lines \<Rightarrow>
              (case setting_read_lines L lines (settings cfg1) of
                 Returned st \<Rightarrow> Returned (cfg1\<lparr>settings := st\<rparr>)
               | Exited c st \<Rightarrow> Exited c (cfg1\<lparr>settings := st\<rparr>)
               | Buffer_overflow \<Rightarrow> Buffer_overflow)))"

text \<open>The default settings, in the order of the \<open>g_ptr_array_set\<close> calls.\<close>

definition default_settings :: "nat \<Rightarrow> Env \<Rightarrow> (SettingId \<times> Setting) list" where
  "default_settings L env =
    [
     (''SETTING_BACKGROUND'', setting_enum_new L ''background'' ''dark'' ''dark,default''),
     (''SETTING_COLORMODE'', setting_enum_new L ''colormode'' ''request'' ''request,cseq,callid''),
     (''SETTING_SYNTAX'', setting_bool_new L ''syntax'' SETTING_ON),
     (''SETTING_SYNTAX_TAG'', setting_bool_new L ''syntax.tag'' SETTING_OFF),
     (''SETTING_SYNTAX_BRANCH'', setting_bool_new L ''syntax.branch'' SETTING_OFF),
     (''SETTING_ALTKEY_HINT'', setting_bool_new L ''hintkeyalt'' SETTING_OFF),
     (''SETTING_EXITPROMPT'', setting_bool_new L ''exitprompt'' SETTING_ON),
     (''SETTING_CAPTURE_LIMIT'', setting_number_new L ''capture.limit'' ''20000''),
     (''SETTING_CAPTURE_DEVICE'', setting_string_new L ''capture.device'' ''any''),
     (''SETTING_CAPTURE_OUTFILE'', setting_string_new L ''capture.outfile'' ''''),
     (''SETTING_CAPTURE_KEYFILE'', setting_string_new L ''capture.keyfile'' ''''),
     (''SETTING_CAPTURE_TLSSERVER'', setting_string_new L ''capture.tlsserver'' ''''),
     (''SETTING_CAPTURE_RTP'', setting_bool_new L ''capture.rtp'' SETTING_OFF),
     (''SETTING_CAPTURE_PACKET_IP'', setting_bool_new L ''capture.packet.ip'' SETTING_ON),
     (''SETTING_CAPTURE_PACKET_UDP'', setting_bool_new L ''capture.packet.udp'' SETTING_ON),
     (''SETTING_CAPTURE_PACKET_TCP'', setting_bool_new L ''capture.packet.tcp'' SETTING_ON),
     (''SETTING_CAPTURE_PACKET_TLS'', setting_bool_new L ''capture.packet.tls'' SETTING_OFF),
     (''SETTING_CAPTURE_PACKET_HEP'', setting_bool_new L ''capture.packet.hep'' SETTING_OFF),
     (''SETTING_CAPTURE_PACKET_WS'', setting_bool_new L ''capture.packet.ws'' SETTING_OFF),
     (''SETTING_CAPTURE_PACKET_SIP'', setting_bool_new L ''capture.packet.sip'' SETTING_ON),
     (''SETTING_CAPTURE_PACKET_SDP'', setting_bool_new L ''capture.packet.sdp'' SETTING_ON),
     (''SETTING_CAPTURE_PACKET_RTP'', setting_bool_new L ''capture.packet.rtp'' SETTING_ON),
     (''SETTING_CAPTURE_PACKET_RTCP'', setting_bool_new L ''capture.packet.rtcp'' SETTING_ON),
     (''SETTING_CAPTURE_STORAGE'', setting_enum_new L ''capture.storage'' ''memory'' ''none,memory''),
     (''SETTING_CAPTURE_ROTATE'', setting_bool_new L ''capture.rotate'' SETTING_OFF),
     (''SETTING_SIP_NOINCOMPLETE'', setting_bool_new L ''sip.noincomplete'' SETTING_ON),
     (''SETTING_SIP_HEADER_X_CID'', setting_string_new L ''sip.xcid'' ''X-Call-ID|X-CID''),
     (''SETTING_SIP_CALLS'', setting_bool_new L ''sip.calls'' SETTING_OFF),
     (''SETTING_SAVEPATH'', setting_string_new L ''savepath'' (current_dir env)),
     (''SETTING_DISPLAY_ALIAS'', setting_bool_new L ''displayalias'' SETTING_OFF),
     (''SETTING_CL_SCROLLSTEP'', setting_number_new L ''cl.scrollstep'' ''4''),
     (''SETTING_CL_COLORATTR'', setting_bool_new L ''cl.colorattr'' SETTING_ON),
     (''SETTING_CL_AUTOSCROLL'', setting_bool_new L ''cl.autoscroll'' SETTING_OFF),
     (''SETTING_CL_SORTFIELD'', setting_string_new L ''cl.sortfield'' (attr_name_callindex env)),
     (''SETTING_CL_SORTORDER'', setting_string_new L ''cl.sortorder'' ''asc''),
     (''SETTING_CL_FIXEDCOLS'', setting_number_new L ''cl.fixedcols'' ''2''),
     (''SETTING_CL_COL_INDEX_POS'', setting_number_new L ''cl.column.index.pos'' ''0''),
     (''SETTING_CL_COL_INDEX_WIDTH'', setting_number_new L ''cl.column.index.width'' ''4''),
     (''SETTING_CL_COL_SIPFROM_POS'', setting_number_new L ''cl.column.sipfrom.pos'' ''2''),
     (''SETTING_CL_COL_SIPFROM_WIDTH'', setting_number_new L ''cl.column.sipfrom.width'' ''25''),
     (''SETTING_CL_COL_SIPFROMUSER_POS'', setting_number_new L ''cl.column.sipfromuser.pos'' ''-1''),
     (''SETTING_CL_COL_SIPFROMUSER_WIDTH'', setting_number_new L ''cl.column.sipfromuser.width'' ''20''),
     (''SETTING_CL_COL_SIPTO_POS'', setting_number_new L ''cl.column.sipto.pos'' ''3''),
     (''SETTING_CL_COL_SIPTO_WIDTH'', setting_number_new L ''cl.column.sipto.width'' ''25''),
     (''SETTING_CL_COL_SIPTOUSER_POS'', setting_number_new L ''cl.column.siptouser.pos'' ''-1''),
     (''SETTING_CL_COL_SIPTOUSER_WIDTH'', setting_number_new L ''cl.column.siptouser.width'' ''20''),
     (''SETTING_CL_COL_SRC_POS'', setting_number_new L ''cl.column.src.pos'' ''5''),
     (''SETTING_CL_COL_SRC_WIDTH'', setting_number_new L ''cl.column.src.width'' ''22''),
     (''SETTING_CL_COL_DST_POS'', setting_number_new L ''cl.column.dst.pos'' ''6''),
     (''SETTING_CL_COL_DST_WIDTH'', setting_number_new L ''cl.column.dst.width'' ''22''),
     (''SETTING_CL_COL_CALLID_POS'', setting_number_new L ''cl.column.callid.pos'' ''-1''),
     (''SETTING_CL_COL_CALLID_WIDTH'', setting_number_new L ''cl.column.callid.width'' ''50''),
     (''SETTING_CL_COL_XCALLID_POS'', setting_number_new L ''cl.column.xcallid.pos'' ''-1''),
     (''SETTING_CL_COL_XCALLID_WIDTH'', setting_number_new L ''cl.column.xcallid.width'' ''50''),
     (''SETTING_CL_COL_DATE_POS'', setting_number_new L ''cl.column.date.pos'' ''-1''),
     (''SETTING_CL_COL_DATE_WIDTH'', setting_number_new L ''cl.column.date.width'' ''10''),
     (''SETTING_CL_COL_TIME_POS'', setting_number_new L ''cl.column.time.pos'' ''-1''),
     (''SETTING_CL_COL_TIME_WIDTH'', setting_number_new L ''cl.column.time.width'' ''8''),
     (''SETTING_CL_COL_METHOD_POS'', setting_number_new L ''cl.column.method.pos'' ''1''),
     (''SETTING_CL_COL_METHOD_WIDTH'', setting_number_new L ''cl.column.method.width'' ''10''),
     (''SETTING_CL_COL_TRANSPORT_POS'', setting_number_new L ''cl.column.transport.pos'' ''-1''),
     (''SETTING_CL_COL_TRANSPORT_WIDTH'', setting_number_new L ''cl.column.transport.width'' ''3''),
     (''SETTING_CL_COL_MSGCNT_POS'', setting_number_new L ''cl.column.msgcnt.pos'' ''4''),
     (''SETTING_CL_COL_MSGCNT_WIDTH'', setting_number_new L ''cl.column.msgcnt.width'' ''5''),
     (''SETTING_CL_COL_CALLSTATE_POS'', setting_number_new L ''cl.column.state.pos'' ''7''),
     (''SETTING_CL_COL_CALLSTATE_WIDTH'', setting_number_new L ''cl.column.state.width'' ''12''),
     (''SETTING_CL_COL_CONVDUR_POS'', setting_number_new L ''cl.column.convdur.pos'' ''-1''),
     (''SETTING_CL_COL_CONVDUR_WIDTH'', setting_number_new L ''cl.column.convdur.width'' ''7''),
     (''SETTING_CL_COL_TOTALDUR_POS'', setting_number_new L ''cl.column.totaldur.pos'' ''-1''),
     (''SETTING_CL_COL_TOTALDUR_WIDTH'', setting_number_new L ''cl.column.totaldur.width'' ''8''),
     (''SETTING_CL_COL_REASON_TXT_POS'', setting_number_new L ''cl.column.reason.pos'' ''-1''),
     (''SETTING_CL_COL_REASON_TXT_WIDTH'', setting_number_new L ''cl.column.reason.width'' ''25''),
     (''SETTING_CL_COL_WARNING_POS'', setting_number_new L ''cl.column.warning.pos'' ''-1''),
     (''SETTING_CL_COL_WARNING_WIDTH'', setting_number_new L ''cl.column.warning.width'' ''4''),
     (''SETTING_CF_FORCERAW'', setting_bool_new L ''cf.forceraw'' SETTING_ON),
     (''SETTING_CF_RAWMINWIDTH'', setting_number_new L ''cf.rawminwidth'' ''40''),
     (''SETTING_CF_RAWFIXEDWIDTH'', setting_number_new L ''cf.rawfixedwidth'' ''''),
     (''SETTING_CF_SPLITCALLID'', setting_bool_new L ''cf.splitcallid'' SETTING_OFF),
     (''SETTING_CF_HIGHTLIGHT'', setting_enum_new L ''cf.highlight'' ''bold'' ''bold,reverse,reversebold''),
     (''SETTING_CF_SCROLLSTEP'', setting_number_new L ''cf.scrollstep'' ''4''),
     (''SETTING_CF_LOCALHIGHLIGHT'', setting_bool_new L ''cf.localhighlight'' SETTING_ON),
     (''SETTING_CF_SDP_INFO'', setting_enum_new L ''cf.sdpinfo'' SETTING_OFF ''off,first,full,compressed''),
     (''SETTING_CF_MEDIA'', setting_bool_new L ''cf.media'' SETTING_ON),
     (''SETTING_CF_ONLYMEDIA'', setting_bool_new L ''cf.onlymedia'' SETTING_OFF),
     (''SETTING_CF_DELTA'', setting_bool_new L ''cf.deltatime'' SETTING_ON),
     (''SETTING_CF_HIDEDUPLICATE'', setting_bool_new L ''cf.hideduplicate'' SETTING_OFF),
     (''SETTING_CR_SCROLLSTEP'', setting_number_new L ''cr.scrollstep'' ''10''),
     (''SETTING_CR_NON_ASCII'', setting_string_new L ''cr.nonascii'' ''.''),
     (''SETTING_FILTER_PAYLOAD'', setting_string_new L ''filter.payload'' ''''),
     (''SETTING_FILTER_METHODS'', setting_string_new L ''filter.methods'' ''REGISTER,INVITE,SUBSCRIBE,NOTIFY,OPTIONS,PUBLISH,MESSAGE,INFO,REFER,UPDATE''),
     (''SETTING_HEP_SEND'', setting_bool_new L ''eep.send'' SETTING_OFF),
     (''SETTING_HEP_SEND_VER'', setting_number_new L ''eep.send.version'' ''3''),
     (''SETTING_HEP_SEND_ADDR'', setting_string_new L ''eep.send.address'' ''127.0.0.1''),
     (''SETTING_HEP_SEND_PORT'', setting_number_new L ''eep.send.port'' ''9060''),
     (''SETTING_HEP_SEND_PASS'', setting_string_new L ''eep.send.pass'' ''''),
     (''SETTING_HEP_SEND_ID'', setting_number_new L ''eep.send.id'' ''2000''),
     (''SETTING_HEP_LISTEN'', setting_bool_new L ''eep.listen'' SETTING_OFF),
     (''SETTING_HEP_LISTEN_VER'', setting_string_new L ''eep.listen.version'' ''3''),
     (''SETTING_HEP_LISTEN_ADDR'', setting_string_new L ''eep.listen.address'' ''0.0.0.0''),
     (''SETTING_HEP_LISTEN_PORT'', setting_number_new L ''eep.listen.port'' ''9060''),
     (''SETTING_HEP_LISTEN_PASS'', setting_string_new L ''eep.listen.pass'' ''''),
     (''SETTING_HEP_LISTEN_UUID'', setting_bool_new L ''eep.listen.uuid'' SETTING_OFF)
    ]"

definition settings_init :: "nat \<Rightarrow> Env \<Rightarrow> SettingOpts \<Rightarrow> Config outcome" where
  "settings_init L env options =
     (let cfg0 = \<lparr>settings =
                    \<lparr>setting_values = fold (\<lambda>(i, s). AList.update i s) (default_settings L env) [],
                     aliases = [], externips = [], keybindings = []\<rparr>,
                  files_read = []\<rparr>
      in and_then
           (if \<not> use_defaults options then
              and_then
                (and_then (setting_read_file L env ''/etc/sngreprc'' cfg0)
                   (setting_read_file L env ''/usr/local/etc/sngreprc''))
                (\<lambda>cfg. case getenv env ''SNGREPRC'' of
                          Some userconf \<Rightarrow> setting_read_file L env userconf cfg
                        | None \<Rightarrow>
                            (case home_dir env of
                               Some homedir \<Rightarrow> setting_read_file L env (homedir @ ''/.sngreprc'') cfg
                             | None \<Rightarrow> Returned cfg))
            else Returned cfg0)
           (\<lambda>cfg. case opt_file options of
                     Some f \<Rightarrow> setting_read_file L env f cfg
                   | None \<Rightarrow> Returned cfg))"

section \<open>Messages (src/storage/message.c)\<close>

text \<open>The \<open>Address\<close> of \<open>address.h\<close>: a textual IP address and a 16-bit port.\<close>

record Address =
  ip :: string
  port :: "16 word"

text \<open>
  Modelled from the spec: \<open>addressport_equals\<close> is declared in \<open>address.h\<close> ("check
  if two address are equal (including port)") and defined in a file that is not among
  the sources; the spec gives an address the equality "with/without port". Two
  addresses are equal when their ports and their IP texts are.
\<close>

definition addressport_equals :: "Address \<Rightarrow> Address \<Rightarrow> bool" where
  "addressport_equals addr1 addr2 = (port addr1 = port addr2 \<and> g_strcmp0 (Some (ip addr1)) (Some (ip addr2)) = 0)"

text \<open>
  \<open>message.c\<close> reads the packet of a message only through the accessors of the packet
  and SIP dissector modules (\<open>packet_src_address\<close>, \<open>packet_dst_address\<close>,
  \<open>packet_sip_method\<close>, \<open>packet_sip_cseq\<close>, \<open>packet_sip_payload\<close>,
  \<open>packet_sip_initial_transaction\<close>), which are not among the sources: a
  \<open>SipPacket\<close> holds what each of them returns for the packet.
\<close>

record SipPacket =
  packet_src_address :: Address
  packet_dst_address :: Address
  packet_sip_method :: nat
  packet_sip_cseq :: "64 word"
  packet_sip_payload :: string
  packet_sip_initial_transaction :: bool

text \<open>
  Messages and calls refer to each other by pointer: a \<open>Heap\<close> maps the pointers to
  the structures. The attribute table of a message is a \<open>GHashTable\<close> from attribute
  names to nullable strings.
\<close>

type_synonym msg_ptr = nat
type_synonym call_ptr = nat

record Attribute =
  attr_name :: string

record Message =
  packet :: SipPacket
  call :: call_ptr
  attributes :: "string \<rightharpoonup> string option"

record Call =
  msgs :: "msg_ptr list"

record Heap =
  msg_at :: "msg_ptr \<Rightarrow> Message"
  call_at :: "call_ptr \<Rightarrow> Call"

definition msg_get_call :: "Heap \<Rightarrow> msg_ptr \<Rightarrow> call_ptr" where
  "msg_get_call H msg = call (msg_at H msg)"

text \<open>The array \<open>msg->call->msgs\<close>.\<close>

definition msg_call_msgs :: "Heap \<Rightarrow> msg_ptr \<Rightarrow> msg_ptr list" where
  "msg_call_msgs H msg = msgs (call_at H (call (msg_at H msg)))"

definition msg_is_request :: "Heap \<Rightarrow> msg_ptr \<Rightarrow> bool" where
  "msg_is_request H msg = (packet_sip_method (packet (msg_at H msg)) < 100)"

definition msg_get_cseq :: "Heap \<Rightarrow> msg_ptr \<Rightarrow> 64 word" where
  "msg_get_cseq H msg = packet_sip_cseq (packet (msg_at H msg))"

definition msg_get_payload :: "Heap \<Rightarrow> msg_ptr \<Rightarrow> string" where
  "msg_get_payload H msg = packet_sip_payload (packet (msg_at H msg))"

text \<open>
  \<open>msg_src_address\<close> and \<open>msg_dst_address\<close> are used by \<open>msg_is_retrans\<close> and
  defined outside \<open>message.c\<close>: the addresses of the message's packet.
\<close>

definition msg_src_address :: "Heap \<Rightarrow> msg_ptr \<Rightarrow> Address" where
  "msg_src_address H msg = packet_src_address (packet (msg_at H msg))"

definition msg_dst_address :: "Heap \<Rightarrow> msg_ptr \<Rightarrow> Address" where
  "msg_dst_address H msg = packet_dst_address (packet (msg_at H msg))"

text \<open>
  \<open>msg_is_initial_transaction\<close>: the loop over the indices \<open>i\<close> of the call's
  messages, from 0.
\<close>

function initial_transaction_loop :: "Heap \<Rightarrow> msg_ptr \<Rightarrow> msg_ptr list \<Rightarrow> nat \<Rightarrow> bool" where
  "initial_transaction_loop H msg arr i =
     (if i < length arr then
        (let call_msg = arr ! i in
         if \<not> msg_is_request H call_msg then initial_transaction_loop H msg arr (i + 1)
         else if call_msg = msg then packet_sip_initial_transaction (packet (msg_at H msg))
         else if msg_get_cseq H msg \<noteq> msg_get_cseq H call_msg then
           initial_transaction_loop H msg arr (i + 1)
         else if msg_is_request H msg then
           (if \<not> addressport_equals (packet_src_address (packet (msg_at H msg)))
                                      (packet_src_address (packet (msg_at H call_msg)))
            then initial_transaction_loop H msg arr (i + 1)
            else packet_sip_initial_transaction (packet (msg_at H call_msg)))
         else
           (if \<not> addressport_equals (packet_src_address (packet (msg_at H msg)))
                                      (packet_dst_address (packet (msg_at H call_msg)))
            then initial_transaction_loop H msg arr (i + 1)
            else packet_sip_initial_transaction (packet (msg_at H call_msg))))
      else packet_sip_initial_transaction (packet (msg_at H msg)))"
  by pat_completeness auto
termination
  by (relation "measure (\<lambda>(H, msg, arr, i). length arr - i)") auto

declare initial_transaction_loop.simps [simp del]

definition msg_is_initial_transaction :: "Heap \<Rightarrow> msg_ptr \<Rightarrow> bool" where
  "msg_is_initial_transaction H msg =
     initial_transaction_loop H msg (msg_call_msgs H msg) 0"

text \<open>
  \<open>msg_is_retrans\<close>: the loop over the indices \<open>i\<close> from the last one down to 0;
  the argument \<open>Suc i\<close> of \<open>retrans_loop\<close> stands for the index \<open>i\<close>.
\<close>

primrec retrans_loop :: "Heap \<Rightarrow> msg_ptr \<Rightarrow> msg_ptr list \<Rightarrow> nat \<Rightarrow> msg_ptr option" where
  "retrans_loop H msg arr 0 = None"
| "retrans_loop H msg arr (Suc i) =
     (let prev = arr ! i in
      if prev = msg then retrans_loop H msg arr i
      else if addressport_equals (msg_src_address H prev) (msg_src_address H msg)
              \<and> addressport_equals (msg_dst_address H prev) (msg_dst_address H msg)
           then (if strcasecmp (msg_get_payload H msg) (msg_get_payload H prev) = 0
                 then Some prev
                 else retrans_loop H msg arr i)
           else retrans_loop H msg arr i)"

definition msg_is_retrans :: "Heap \<Rightarrow> msg_ptr \<Rightarrow> msg_ptr option" where
  "msg_is_retrans H msg =
     retrans_loop H msg (msg_call_msgs H msg) (length (msg_call_msgs H msg))"

text \<open>
  The attribute cache. \<open>g_hash_table_lookup\<close> returns \<open>NULL\<close> for a key without an
  entry and for a key whose entry holds \<open>NULL\<close>.
\<close>

definition g_hash_table_lookup :: "('k \<rightharpoonup> 'v option) \<Rightarrow> 'k \<Rightarrow> 'v option" where
  "g_hash_table_lookup tbl k = (case tbl k of None \<Rightarrow> None | Some v \<Rightarrow> v)"

definition g_hash_table_remove :: "('k \<rightharpoonup> 'v option) \<Rightarrow> 'k \<Rightarrow> ('k \<rightharpoonup> 'v option)" where
  "g_hash_table_remove tbl k = tbl(k := None)"

definition g_hash_table_insert :: "('k \<rightharpoonup> 'v option) \<Rightarrow> 'k \<Rightarrow> 'v option \<Rightarrow> ('k \<rightharpoonup> 'v option)" where
  "g_hash_table_insert tbl k v = tbl(k \<mapsto> v)"

definition msg_set_cached_attribute :: "Message \<Rightarrow> Attribute \<Rightarrow> string option \<Rightarrow> Message" where
  "msg_set_cached_attribute msg attr v =
     (let prev_value = g_hash_table_lookup (attributes msg) (attr_name attr) in
      if prev_value \<noteq> None \<and> g_strcmp0 prev_value v \<noteq> 0
      then msg\<lparr>attributes :=
             g_hash_table_insert (g_hash_table_remove (attributes msg) (attr_name attr))
               (attr_name attr) v\<rparr>
      else msg)"

definition msg_get_cached_attribute :: "Message \<Rightarrow> Attribute \<Rightarrow> string option" where
  "msg_get_cached_attribute msg attr = g_hash_table_lookup (attributes msg) (attr_name attr)"

section \<open>The packet parser (src/parser/parser.c)\<close>

text \<open>
  The protocol protos that \<open>packet_parser_dissector_init\<close> knows, and
  \<open>PACKET_OTHER\<close> for every other value of the enumeration (the \<open>default\<close> case
  of its \<open>switch\<close>).
\<close>

datatype PacketProtoId =
    PACKET_LINK | PACKET_IP | PACKET_UDP | PACKET_TCP | PACKET_SIP | PACKET_SDP
  | PACKET_RTP | PACKET_RTCP | PACKET_HEP | PACKET_TLS | PACKET_OTHER nat

type_synonym bytes = "8 word list"

text \<open>
  A \<open>PacketDissector *\<close> is an address; \<open>NULL\<close> is the address 0, and
  \<open>dissector_at\<close> of a parser gives the structure at an address (reading through
  \<open>NULL\<close> or through an address that was never allocated is undefined in C and
  has no meaning in the model). \<open>allocated\<close> counts the dissectors made so far: the
  next one gets the next address.
\<close>

type_synonym dissector_ptr = nat

definition NULL :: dissector_ptr where
  "NULL = 0"

text \<open>
  The dissector tree is a \<open>GNode\<close> tree, modelled as a value: a node is its data (a
  dissector) and its children, in the order in which \<open>g_node_append\<close> added them.
\<close>

datatype GNode = GNode (node_data: dissector_ptr) (node_children: "GNode list")

definition g_node_n_children :: "GNode option \<Rightarrow> nat" where
  "g_node_n_children node = (case node of None \<Rightarrow> 0 | Some n \<Rightarrow> length (node_children n))"

definition g_node_nth_child :: "GNode option \<Rightarrow> nat \<Rightarrow> GNode option" where
  "g_node_nth_child node i =
     (case node of
        None \<Rightarrow> None
      | Some n \<Rightarrow> if i < length (node_children n) then Some (node_children n ! i) else None)"

text \<open>
  A dissector's functions get the parser and the packet. What they can change is the
  cursor \<open>parser->current\<close> and the state \<open>'s\<close>, which stands for the packet and
  for the private data of the dissectors; the tree and the table of dissectors are not
  changed after the parser is set up. \<open>dissect\<close> returns the bytes that remain, or
  \<open>NULL\<close> (\<open>None\<close>) once everything is dissected. A function pointer that is
  \<open>NULL\<close> is \<open>None\<close>.
\<close>

type_synonym 's dissect_fn = "GNode option \<Rightarrow> 's \<Rightarrow> bytes \<Rightarrow> bytes option \<times> GNode option \<times> 's"

record 's PacketDissector =
  init :: "('s \<Rightarrow> 's) option"
  dissect :: "'s dissect_fn option"
  subdissectors :: "PacketProtoId list"

record 's PacketParser =
  dissectors :: "PacketProtoId \<Rightarrow> dissector_ptr"
  dissector_at :: "dissector_ptr \<Rightarrow> 's PacketDissector"
  allocated :: nat
  dissector_tree :: GNode
  current :: "GNode option"
  priv :: 's

text \<open>
  \<open>packet_parser_new\<close>: no dissector yet, a root node without data, no cursor.
\<close>

definition packet_parser_new :: "'s \<Rightarrow> 's PacketParser" where
  "packet_parser_new s =
     \<lparr>dissectors = (\<lambda>proto. NULL),
      dissector_at = (\<lambda>p. \<lparr>init = None, dissect = None, subdissectors = []\<rparr>),
      allocated = 0,
      dissector_tree = GNode NULL [],
      current = None,
      priv = s\<rparr>"

text \<open>
  The \<open>switch\<close> of \<open>packet_parser_dissector_init\<close>. The constructors
  \<open>packet_link_new\<close>, \<open>packet_ip_new\<close>, ... belong to the dissector modules,
  which are not among the sources: \<open>ctor proto\<close> is the structure that the constructor
  of the protocol \<open>proto\<close> fills in. \<open>proto_setting\<close> is the setting that the
  \<open>switch\<close> tests for a protocol (none for the link layer, which is always made).
\<close>

definition proto_setting :: "PacketProtoId \<Rightarrow> SettingId option" where
  "proto_setting proto =
     (case proto of
        PACKET_LINK \<Rightarrow> None
      | PACKET_IP \<Rightarrow> Some ''SETTING_CAPTURE_PACKET_IP''
      | PACKET_UDP \<Rightarrow> Some ''SETTING_CAPTURE_PACKET_UDP''
      | PACKET_TCP \<Rightarrow> Some ''SETTING_CAPTURE_PACKET_TCP''
      | PACKET_SIP \<Rightarrow> Some ''SETTING_CAPTURE_PACKET_SIP''
      | PACKET_SDP \<Rightarrow> Some ''SETTING_CAPTURE_PACKET_SDP''
      | PACKET_RTP \<Rightarrow> Some ''SETTING_CAPTURE_PACKET_RTP''
      | PACKET_RTCP \<Rightarrow> Some ''SETTING_CAPTURE_PACKET_RTCP''
      | PACKET_HEP \<Rightarrow> Some ''SETTING_CAPTURE_PACKET_HEP''
      | PACKET_TLS \<Rightarrow> Some ''SETTING_CAPTURE_PACKET_TLS''
      | PACKET_OTHER n \<Rightarrow> None)"

text \<open>
  \<open>dissector_new\<close>: the part of \<open>packet_parser_dissector_init\<close> that runs when the
  parser has no dissector for the protocol yet. \<open>None\<close> is the return of \<open>NULL\<close>
  (a protocol that is not supported or not enabled); otherwise the new dissector is
  allocated, stored in \<open>parser->dissectors\<close> and initialised.
\<close>

definition dissector_alloc ::
  "(PacketProtoId \<Rightarrow> 's PacketDissector) \<Rightarrow> 's PacketParser \<Rightarrow> PacketProtoId
     \<Rightarrow> dissector_ptr \<times> 's PacketParser" where
  "dissector_alloc ctor parser proto =
     (let dissector = Suc (allocated parser);
          parser1 = parser\<lparr>dissector_at := (dissector_at parser)(dissector := ctor proto),
                          allocated := dissector\<rparr>;
          parser2 = parser1\<lparr>dissectors := (dissectors parser1)(proto := dissector)\<rparr>
      in (dissector,
          case init (dissector_at parser2 dissector) of
            None \<Rightarrow> parser2
          | Some f \<Rightarrow> parser2\<lparr>priv := f (priv parser2)\<rparr>))"

definition dissector_new ::
  "(PacketProtoId \<Rightarrow> 's PacketDissector) \<Rightarrow> SettingStorage \<Rightarrow> 's PacketParser \<Rightarrow> PacketProtoId
     \<Rightarrow> (dissector_ptr \<times> 's PacketParser) option" where
  "dissector_new ctor st parser proto =
     (case proto of
        PACKET_LINK \<Rightarrow> Some (dissector_alloc ctor parser proto)
      | PACKET_OTHER n \<Rightarrow> None
      | _ \<Rightarrow>
          (case proto_setting proto of
             Some sett \<Rightarrow>
               if setting_enabled st sett then Some (dissector_alloc ctor parser proto) else None
           | None \<Rightarrow> None))"

text \<open>
  \<open>packet_parser_dissector_init\<close>. The C function makes a node for the dissector,
  appends it to \<open>parent\<close> and calls itself for every protocol in the dissector's
  \<open>subdissectors\<close>, with the new node as the parent. In the model the function
  returns the new node with the subtree that these calls have put below it, and the
  caller appends it; a return of \<open>NULL\<close>, which appends nothing, is the node
  \<open>None\<close>. The recursion follows the \<open>subdissectors\<close> lists, which the code does
  not bound: the first argument bounds its depth, and the result is \<open>None\<close> when
  the bound is reached.
\<close>

fun packet_parser_dissector_init ::
  "nat \<Rightarrow> (PacketProtoId \<Rightarrow> 's PacketDissector) \<Rightarrow> SettingStorage \<Rightarrow> 's PacketParser
     \<Rightarrow> PacketProtoId \<Rightarrow> (GNode option \<times> 's PacketParser) option"
and dissector_init_children ::
  "nat \<Rightarrow> (PacketProtoId \<Rightarrow> 's PacketDissector) \<Rightarrow> SettingStorage \<Rightarrow> 's PacketParser
     \<Rightarrow> PacketProtoId list \<Rightarrow> (GNode list \<times> 's PacketParser) option"
where
  "packet_parser_dissector_init 0 ctor st parser proto = None"
| "packet_parser_dissector_init (Suc fuel) ctor st parser proto =
     (case (if dissectors parser proto = NULL then dissector_new ctor st parser proto
            else Some (dissectors parser proto, parser)) of
        None \<Rightarrow> Some (None, parser)
      | Some (dissector, parser1) \<Rightarrow>
          (case dissector_init_children fuel ctor st parser1
                  (subdissectors (dissector_at parser1 dissector)) of
             None \<Rightarrow> None
           | Some (nodes, parser2) \<Rightarrow> Some (Some (GNode dissector nodes), parser2)))"
| "dissector_init_children fuel ctor st parser [] = Some ([], parser)"
| "dissector_init_children fuel ctor st parser (proto # protos) =
     (case packet_parser_dissector_init fuel ctor st parser proto of
        None \<Rightarrow> None
      | Some (node, parser1) \<Rightarrow>
          (case dissector_init_children fuel ctor st parser1 protos of
             None \<Rightarrow> None
           | Some (nodes, parser2) \<Rightarrow>
               Some ((case node of None \<Rightarrow> nodes | Some n \<Rightarrow> n # nodes), parser2)))"

text \<open>
  The call that sets up a parser, with the root of the tree as the parent: the node
  is appended to the children of the root.
\<close>

definition dissector_tree_init ::
  "nat \<Rightarrow> (PacketProtoId \<Rightarrow> 's PacketDissector) \<Rightarrow> SettingStorage \<Rightarrow> 's PacketParser
     \<Rightarrow> PacketProtoId \<Rightarrow> 's PacketParser option" where
  "dissector_tree_init fuel ctor st parser proto =
     (case packet_parser_dissector_init fuel ctor st parser proto of
        None \<Rightarrow> None
      | Some (None, parser1) \<Rightarrow> Some parser1
      | Some (Some node, parser1) \<Rightarrow>
          Some (parser1\<lparr>dissector_tree :=
                  GNode (node_data (dissector_tree parser1))
                        (node_children (dissector_tree parser1) @ [node])\<rparr>))"

text \<open>
  \<open>packet_parser_next_dissector\<close>: the loop over the indices \<open>i\<close> of the children
  of the node that was current at the call.
\<close>

function next_dissector_loop ::
  "'s PacketParser \<Rightarrow> GNode option \<Rightarrow> nat \<Rightarrow> bytes \<Rightarrow> bytes option \<times> 's PacketParser" where
  "next_dissector_loop parser cur i data =
     (if i < g_node_n_children cur then
        (let parser1 = parser\<lparr>current := g_node_nth_child cur i\<rparr>;
             dissector = dissector_at parser1 (case current parser1 of Some n \<Rightarrow> node_data n | None \<Rightarrow> NULL)
         in (case dissect dissector of
               None \<Rightarrow> next_dissector_loop parser1 cur (i + 1) data
             | Some f \<Rightarrow>
                 (case f (current parser1) (priv parser1) data of
                    (None, c, s) \<Rightarrow> (None, parser1\<lparr>current := c, priv := s\<rparr>)
                  | (Some rest, c, s) \<Rightarrow>
                      next_dissector_loop (parser1\<lparr>current := c, priv := s\<rparr>) cur (i + 1) rest)))
      else (Some data, parser))"
  by pat_completeness auto
termination
  by (relation "measure (\<lambda>(parser, cur, i, data). g_node_n_children cur - i)") auto

declare next_dissector_loop.simps [simp del]

definition packet_parser_next_dissector ::
  "'s PacketParser \<Rightarrow> bytes option \<Rightarrow> bytes option \<times> 's PacketParser" where
  "packet_parser_next_dissector parser data =
     (case data of
        None \<Rightarrow> (None, parser)
      | Some d \<Rightarrow> next_dissector_loop parser (current parser) 0 d)"

section \<open>HEP capture input and output (src/capture/capture_hep.c)\<close>

text \<open>
  A \<open>GError\<close>: the error domain, the code and the message. The two codes of the
  domain \<open>capture-hep\<close> that the file uses are the two first constructors; an error
  of the socket functions has a code of GLib's.
\<close>

datatype ErrorCode =
  CAPTURE_HEP_ERROR_VERSION | CAPTURE_HEP_ERROR_URL_PARSE | G_IO_ERROR_CODE int

record GError =
  error_domain :: string
  error_code :: ErrorCode
  error_message :: string

definition CAPTURE_HEP_ERROR :: string where
  "CAPTURE_HEP_ERROR = ''capture-hep''"

datatype GSocketProtocol = G_SOCKET_PROTOCOL_UDP

record CaptureHepUrl =
  url_proto :: GSocketProtocol
  url_host :: "string option"
  url_port :: int

text \<open>
  \<open>capture_hep_parse_url\<close>: \<open>Inl\<close> is the return of \<open>FALSE\<close> with the error
  set, \<open>Inr\<close> the return of \<open>TRUE\<close> with the URL filled in.
\<close>

definition capture_hep_parse_url :: "string \<Rightarrow> GError + CaptureHepUrl" where
  "capture_hep_parse_url url_str =
     (let tokens = g_strsplit url_str CHR '':'' 3 in
      if length tokens \<noteq> 3 then
        Inl \<lparr>error_domain = CAPTURE_HEP_ERROR, error_code = CAPTURE_HEP_ERROR_URL_PARSE,
             error_message = ''Unable to dissect URL '' @ url_str @ '': Invalid arguments number''\<rparr>
      else if g_strcmp0 (Some (tokens ! 0)) (Some ''udp'') = 0 then
        Inr \<lparr>url_proto = G_SOCKET_PROTOCOL_UDP, url_host = Some (tokens ! 1),
             url_port = atoi (tokens ! 2)\<rparr>
      else
        Inl \<lparr>error_domain = CAPTURE_HEP_ERROR, error_code = CAPTURE_HEP_ERROR_URL_PARSE,
             error_message = ''Unable to dissect URL '' @ url_str @ '': Unsupported protocol ''
                             @ tokens ! 0\<rparr>)"

text \<open>
  The socket functions of GLib are the environment of the two constructors: what
  each call returns is given by a \<open>SocketEnv\<close> (an address or a socket is a handle),
  and the calls made are logged as \<open>SocketOp\<close>s.
\<close>

record SocketEnv =
  inet_socket_address_new_from_string :: "string option \<Rightarrow> int \<Rightarrow> nat option"
  socket_new :: "GError + nat"
  socket_bind :: "nat \<Rightarrow> nat \<Rightarrow> GError option"
  socket_connect :: "nat \<Rightarrow> nat \<Rightarrow> GError option"

datatype SocketOp = Socket_new | Socket_bind nat nat | Socket_connect nat nat

datatype CaptureMode = CAPTURE_MODE_ONLINE

record CaptureInputHep =
  in_version :: int
  in_password :: "string option"
  in_url :: CaptureHepUrl
  in_socket :: nat
  in_source_str :: string
  in_mode :: CaptureMode

record CaptureOutputHep =
  out_version :: int
  out_password :: "string option"
  out_id :: "16 word"
  out_url :: CaptureHepUrl
  out_socket :: nat
  out_sink :: string

text \<open>
  \<open>capture_input_hep\<close>: \<open>Inl\<close> is the return of \<open>NULL\<close> with the error set,
  \<open>Inr\<close> the input made; the second component is the log of the socket calls.
  (After the socket is bound the function sets up the parser tree for
  \<open>PACKET_HEP\<close> and the event source of the socket; these steps cannot fail and are
  left out.)
\<close>

definition capture_input_hep ::
  "SocketEnv \<Rightarrow> (string \<Rightarrow> int) \<Rightarrow> SettingStorage \<Rightarrow> string option
     \<Rightarrow> (GError + CaptureInputHep) \<times> SocketOp list" where
  "capture_input_hep env g_atoi st url =
     (let version = setting_get_intvalue g_atoi st ''SETTING_HEP_LISTEN_VER'';
          password = setting_get_value st ''SETTING_HEP_LISTEN_PASS'';
          parsed = (case url of
                      Some u \<Rightarrow> capture_hep_parse_url u
                    | None \<Rightarrow>
                        Inr \<lparr>url_proto = G_SOCKET_PROTOCOL_UDP,
                             url_host = setting_get_value st ''SETTING_HEP_LISTEN_ADDR'',
                             url_port = setting_get_intvalue g_atoi st ''SETTING_HEP_LISTEN_PORT''\<rparr>)
      in case parsed of
           Inl err \<Rightarrow> (Inl err, [])
         | Inr hep_url \<Rightarrow>
             if version \<noteq> 2 \<and> version \<noteq> 3 then
               (Inl \<lparr>error_domain = CAPTURE_HEP_ERROR, error_code = CAPTURE_HEP_ERROR_VERSION,
                     error_message = ''HEP: Unsupported protocol version '' @ printf_d version\<rparr>,
                [])
             else
               (case inet_socket_address_new_from_string env (url_host hep_url) (url_port hep_url) of
                  None \<Rightarrow>
                    (Inl \<lparr>error_domain = CAPTURE_HEP_ERROR, error_code = CAPTURE_HEP_ERROR_URL_PARSE,
                          error_message =
                            ''HEP: failed g_inet_socket_address_new_from_string() for ''
                            @ (case url_host hep_url of Some h \<Rightarrow> h | None \<Rightarrow> ''(null)'')
                            @ '':'' @ printf_d (url_port hep_url)\<rparr>,
                     [])
                | Some listen_addr \<Rightarrow>
                    (case socket_new env of
                       Inl socket_error \<Rightarrow> (Inl socket_error, [Socket_new])
                     | Inr sock \<Rightarrow>
                         (case socket_bind env sock listen_addr of
                            Some socket_error \<Rightarrow>
                              (Inl socket_error, [Socket_new, Socket_bind sock listen_addr])
                          | None \<Rightarrow>
                              (Inr \<lparr>in_version = version, in_password = password,
                                    in_url = hep_url, in_socket = sock,
                                    in_source_str = ''L:'' @ printf_d (url_port hep_url),
                                    in_mode = CAPTURE_MODE_ONLINE\<rparr>,
                               [Socket_new, Socket_bind sock listen_addr])))))"

definition capture_output_hep ::
  "SocketEnv \<Rightarrow> (string \<Rightarrow> int) \<Rightarrow> SettingStorage \<Rightarrow> string option
     \<Rightarrow> (GError + CaptureOutputHep) \<times> SocketOp list" where
  "capture_output_hep env g_atoi st url =
     (let version = setting_get_intvalue g_atoi st ''SETTING_HEP_SEND_VER'';
          password = setting_get_value st ''SETTING_HEP_SEND_PASS'';
          capture_id = (of_int (setting_get_intvalue g_atoi st ''SETTING_HEP_SEND_ID'') :: 16 word);
          parsed = (case url of
                      Some u \<Rightarrow> capture_hep_parse_url u
                    | None \<Rightarrow>
                        Inr \<lparr>url_proto = G_SOCKET_PROTOCOL_UDP,
                             url_host = setting_get_value st ''SETTING_HEP_SEND_ADDR'',
                             url_port = setting_get_intvalue g_atoi st ''SETTING_HEP_SEND_PORT''\<rparr>)
      in case parsed of
           Inl err \<Rightarrow> (Inl err, [])
         | Inr hep_url \<Rightarrow>
             if version \<noteq> 2 \<and> version \<noteq> 3 then
               (Inl \<lparr>error_domain = CAPTURE_HEP_ERROR, error_code = CAPTURE_HEP_ERROR_VERSION,
                     error_message = ''HEP client: Unsupported protocol version '' @ printf_d version\<rparr>,
                [])
             else
               (case inet_socket_address_new_from_string env (url_host hep_url) (url_port hep_url) of
                  None \<Rightarrow>
                    (Inl \<lparr>error_domain = CAPTURE_HEP_ERROR, error_code = CAPTURE_HEP_ERROR_URL_PARSE,
                          error_message =
                            ''HEP: failed parser HEP server address from ''
                            @ (case url_host hep_url of Some h \<Rightarrow> h | None \<Rightarrow> ''(null)'')
                            @ '':'' @ printf_d (url_port hep_url)\<rparr>,
                     [])
                | Some srv_addr \<Rightarrow>
                    (case socket_new env of
                       Inl socket_error \<Rightarrow> (Inl socket_error, [Socket_new])
                     | Inr sock \<Rightarrow>
                         (case socket_connect env sock srv_addr of
                            Some socket_error \<Rightarrow>
                              (Inl socket_error, [Socket_new, Socket_connect sock srv_addr])
                          | None \<Rightarrow>
                              (Inr \<lparr>out_version = version, out_password = password,
                                    out_id = capture_id, out_url = hep_url, out_socket = sock,
                                    out_sink = ''L:'' @ printf_d (url_port hep_url)\<rparr>,
                               [Socket_new, Socket_connect sock srv_addr])))))"

text \<open>
  The packet as \<open>capture_output_hep_write\<close> reads it: the first frame for the time
  stamp, and the data of the IP, UDP and SIP layers (\<open>NULL\<close> for a layer the packet
  does not have). Of the UDP and SIP data, whose structures are not among the
  sources, only the fields that the function reads are kept.
\<close>

record PacketFrame =
  ts_unix :: int
  ts_microsecond :: int

record PacketIpData =
  ip_version :: "32 word"
  ip_protocol :: "8 word"
  srcip :: string
  dstip :: string

record PacketUdpData =
  sport :: "16 word"
  dport :: "16 word"

record PacketSipData =
  payload :: string

record Packet =
  frames :: "PacketFrame list"
  proto_ip :: "PacketIpData option"
  proto_udp :: "PacketUdpData option"
  proto_sip :: "PacketSipData option"

text \<open>
  The bytes, in the order of the memory, of a 16-bit and of a 32-bit field that holds
  the result of \<open>g_htons\<close> and of \<open>g_htonl\<close>: the most significant byte first.
\<close>

definition g_htons :: "16 word \<Rightarrow> bytes" where
  "g_htons w = [ucast (drop_bit 8 w), ucast w]"

definition g_htonl :: "32 word \<Rightarrow> bytes" where
  "g_htonl w = [ucast (drop_bit 24 w), ucast (drop_bit 16 w), ucast (drop_bit 8 w), ucast w]"

definition bytes_of :: "string \<Rightarrow> bytes" where
  "bytes_of s = map (\<lambda>c. of_char c) s"

text \<open>
  Modelled from the spec: the structures of \<open>capture_hep.h\<close>, which is not among the
  sources. By the spec the header is the four bytes of the banner and a 16-bit total
  length, and a chunk is \<open>vendor_id(u16) type_id(u16) length(u16) data\<close>; the
  structures are packed, and the data of a chunk of \<open>CaptureHepGeneric\<close> has the
  width of the conversion that the writer applies to it (one byte, \<open>g_htons\<close> or
  \<open>g_htonl\<close>). An IPv4 address chunk holds 4 bytes of data, an IPv6 one 16.
\<close>

definition CaptureHepChunk :: "16 word \<Rightarrow> 16 word \<Rightarrow> 16 word \<Rightarrow> bytes" where
  "CaptureHepChunk vendor_id type_id len = g_htons vendor_id @ g_htons type_id @ g_htons len"

definition sizeof_CaptureHepChunk :: nat where
  "sizeof_CaptureHepChunk = 6"

definition sizeof_CaptureHepChunkUint8 :: nat where
  "sizeof_CaptureHepChunkUint8 = 7"

definition sizeof_CaptureHepChunkUint16 :: nat where
  "sizeof_CaptureHepChunkUint16 = 8"

definition sizeof_CaptureHepChunkUint32 :: nat where
  "sizeof_CaptureHepChunkUint32 = 10"

definition sizeof_CaptureHepChunkIp4 :: nat where
  "sizeof_CaptureHepChunkIp4 = 10"

definition sizeof_CaptureHepChunkIp6 :: nat where
  "sizeof_CaptureHepChunkIp6 = 22"

definition sizeof_CaptureHepGeneric :: nat where
  "sizeof_CaptureHepGeneric = 71"

text \<open>The address families of the system headers (their values on Linux).\<close>

definition AF_INET :: "8 word" where
  "AF_INET = 2"

definition AF_INET6 :: "8 word" where
  "AF_INET6 = 10"

text \<open>
  \<open>capture_output_hep_write\<close>. \<open>Not_sent\<close>: the function returns at a
  \<open>g_return_if_fail\<close>. \<open>Sent b\<close>: it passes the buffer \<open>b\<close> to
  \<open>g_socket_send\<close>. \<open>No_frame\<close>: the packet has no frame, and the function reads
  the time stamp through \<open>NULL\<close>. \<open>inet_pton\<close> is a parameter: the 4 or 16 bytes
  that it stores for the text of an address. The total length is computed in 32
  bits and stored through \<open>g_htons\<close>, which keeps its 16 low bits.
\<close>

datatype hep_write_result = Sent bytes | Not_sent | No_frame

definition capture_output_hep_write ::
  "(string \<Rightarrow> bytes) \<Rightarrow> (string \<Rightarrow> bytes) \<Rightarrow> CaptureOutputHep \<Rightarrow> Packet \<Rightarrow> hep_write_result" where
  "capture_output_hep_write inet_pton4 inet_pton6 hep pkt =
     (case proto_ip pkt of
        None \<Rightarrow> Not_sent
      | Some ip_data \<Rightarrow>
     (case proto_udp pkt of
        None \<Rightarrow> Not_sent
      | Some udp_data \<Rightarrow>
     (case proto_sip pkt of
        None \<Rightarrow> Not_sent
      | Some sip_data \<Rightarrow>
     (case frames pkt of
        [] \<Rightarrow> No_frame
      | frame # _ \<Rightarrow>
          (let ip_family =
                 CaptureHepChunk 0x0000 0x0001 (of_nat sizeof_CaptureHepChunkUint8)
                 @ [if ip_version ip_data = 4 then AF_INET else AF_INET6];
               ip_proto =
                 CaptureHepChunk 0x0000 0x0002 (of_nat sizeof_CaptureHepChunkUint8)
                 @ [ip_protocol ip_data];
               ip_chunks =
                 (if ip_version ip_data = 4 then
                    CaptureHepChunk 0x0000 0x0003 (of_nat sizeof_CaptureHepChunkIp4)
                    @ inet_pton4 (srcip ip_data)
                    @ CaptureHepChunk 0x0000 0x0004 (of_nat sizeof_CaptureHepChunkIp4)
                    @ inet_pton4 (dstip ip_data)
                  else if ip_version ip_data = 6 then
                    CaptureHepChunk 0x0000 0x0005 (of_nat sizeof_CaptureHepChunkIp6)
                    @ inet_pton6 (srcip ip_data)
                    @ CaptureHepChunk 0x0000 0x0006 (of_nat sizeof_CaptureHepChunkIp6)
                    @ inet_pton6 (dstip ip_data)
                  else []);
               ip_len =
                 (if ip_version ip_data = 4 then sizeof_CaptureHepChunkIp4 + sizeof_CaptureHepChunkIp4
                  else if ip_version ip_data = 6 then sizeof_CaptureHepChunkIp6 + sizeof_CaptureHepChunkIp6
                  else 0);
               src_port =
                 CaptureHepChunk 0x0000 0x0007 (of_nat sizeof_CaptureHepChunkUint16)
                 @ g_htons (sport udp_data);
               dst_port =
                 CaptureHepChunk 0x0000 0x0008 (of_nat sizeof_CaptureHepChunkUint16)
                 @ g_htons (dport udp_data);
               time_sec =
                 CaptureHepChunk 0x0000 0x0009 (of_nat sizeof_CaptureHepChunkUint32)
                 @ g_htonl (of_int (ts_unix frame));
               time_usec =
                 CaptureHepChunk 0x0000 0x000a (of_nat sizeof_CaptureHepChunkUint32)
                 @ g_htonl (of_int (ts_microsecond frame));
               proto_t =
                 CaptureHepChunk 0x0000 0x000b (of_nat sizeof_CaptureHepChunkUint8) @ [1];
               capt_id =
                 CaptureHepChunk 0x0000 0x000c (of_nat sizeof_CaptureHepChunkUint16)
                 @ g_htons (out_id hep);
               payload_chunk =
                 CaptureHepChunk 0x0000 0x000f
                   (of_nat (sizeof_CaptureHepChunk + length (payload sip_data)));
               total_len0 =
                 (of_nat (sizeof_CaptureHepGeneric + length (payload sip_data) + ip_len
                          + sizeof_CaptureHepChunk) :: 32 word);
               total_len =
                 (case out_password hep of
                    None \<Rightarrow> total_len0
                  | Some password \<Rightarrow>
                      total_len0 + of_nat sizeof_CaptureHepChunk + of_nat (length password));
               authkey =
                 (case out_password hep of
                    None \<Rightarrow> []
                  | Some password \<Rightarrow>
                      CaptureHepChunk 0x0000 0x000e
                        (of_nat (sizeof_CaptureHepChunk + length password))
                      @ bytes_of password);
               hg = bytes_of ''HEP3'' @ g_htons (ucast total_len)
                    @ ip_family @ ip_proto @ src_port @ dst_port @ time_sec @ time_usec
                    @ proto_t @ capt_id
           in Sent (hg @ ip_chunks @ authkey @ payload_chunk @ bytes_of (payload sip_data)))))))"

section \<open>Hypotheses and example inputs of the theorems\<close>



text \<open>
  The vocabulary of the theorems about messages. \<open>retrans_match H msg prev\<close>:
  \<open>prev\<close> is another message than \<open>msg\<close>, with the same source and the same
  destination address (ports included) and a payload that \<open>strcasecmp\<close> finds
  equal. \<open>transaction_request H msg c\<close>: \<open>c\<close> is a request with the CSeq
  number of \<open>msg\<close> whose source address is the source address of \<open>msg\<close> (for
  \<open>msg\<close> a request), or whose destination address is the source address of
  \<open>msg\<close> (for \<open>msg\<close> a response). \<open>scanned H msg arr\<close>: the messages of
  \<open>arr\<close> before \<open>msg\<close> when \<open>msg\<close> is a request of \<open>arr\<close>, and all
  of \<open>arr\<close> otherwise.
\<close>

definition retrans_match :: "Heap \<Rightarrow> msg_ptr \<Rightarrow> msg_ptr \<Rightarrow> bool" where
  "retrans_match H msg prev =
     (prev \<noteq> msg
      \<and> addressport_equals (msg_src_address H prev) (msg_src_address H msg)
      \<and> addressport_equals (msg_dst_address H prev) (msg_dst_address H msg)
      \<and> strcasecmp (msg_get_payload H msg) (msg_get_payload H prev) = 0)"

definition transaction_request :: "Heap \<Rightarrow> msg_ptr \<Rightarrow> msg_ptr \<Rightarrow> bool" where
  "transaction_request H msg c =
     (msg_is_request H c
      \<and> msg_get_cseq H msg = msg_get_cseq H c
      \<and> (if msg_is_request H msg
         then addressport_equals (packet_src_address (packet (msg_at H msg)))
                                 (packet_src_address (packet (msg_at H c)))
         else addressport_equals (packet_src_address (packet (msg_at H msg)))
                                 (packet_dst_address (packet (msg_at H c)))))"

definition scanned :: "Heap \<Rightarrow> msg_ptr \<Rightarrow> msg_ptr list \<Rightarrow> msg_ptr list" where
  "scanned H msg arr = takeWhile (\<lambda>c. \<not> (msg_is_request H c \<and> c = msg)) arr"

text \<open>
  The vocabulary of the theorems about the parser. \<open>dispatch_in_order\<close> is the
  dispatch step in the words of the specification: the children are visited in the
  order of their registration, a child without a \<open>dissect\<close> function is passed
  over, each other child gets the bytes that the child before it has returned, the
  visit ends at the first child that returns none, and the bytes that remain after the
  last child are the result.
\<close>

fun dispatch_in_order :: "'s PacketParser \<Rightarrow> GNode list \<Rightarrow> bytes \<Rightarrow> bytes option \<times> 's PacketParser" where
  "dispatch_in_order parser [] data = (Some data, parser)"
| "dispatch_in_order parser (child # siblings) data =
     (case dissect (dissector_at parser (node_data child)) of
        None \<Rightarrow> dispatch_in_order (parser\<lparr>current := Some child\<rparr>) siblings data
      | Some f \<Rightarrow>
          (case f (Some child) (priv parser) data of
             (None, c, s) \<Rightarrow> (None, parser\<lparr>current := c, priv := s\<rparr>)
           | (Some remainder, c, s) \<Rightarrow>
               dispatch_in_order (parser\<lparr>current := c, priv := s\<rparr>) siblings remainder))"

text \<open>
  \<open>proto_enabled st proto\<close>: the \<open>switch\<close> of \<open>packet_parser_dissector_init\<close>
  makes a dissector for the protocol. That is the link layer, which has no setting and
  is always made, and each of the nine other protocols of the \<open>switch\<close> when
  \<open>setting_enabled\<close> holds of its setting, that is, when the stored value is "on" or
  "yes". A protocol id without a case of the \<open>switch\<close> is never made.
  \<open>tree_data\<close>: the dissectors of all the nodes of a tree; \<open>subnodes\<close>: the nodes
  themselves, the root first.
\<close>

definition proto_enabled :: "SettingStorage \<Rightarrow> PacketProtoId \<Rightarrow> bool" where
  "proto_enabled st proto =
     (case proto of
        PACKET_LINK \<Rightarrow> True
      | _ \<Rightarrow> (case proto_setting proto of Some sett \<Rightarrow> setting_enabled st sett | None \<Rightarrow> False))"

fun tree_data :: "GNode \<Rightarrow> dissector_ptr list" where
  "tree_data (GNode d cs) = d # concat (map tree_data cs)"

fun subnodes :: "GNode \<Rightarrow> GNode list" where
  "subnodes (GNode d cs) = GNode d cs # concat (map subnodes cs)"

text \<open>
  \<open>enabled_path ctor st proto path\<close>: \<open>proto # path\<close> is a chain of enabled
  protocols in which each protocol is one of the \<open>subdissectors\<close> of the one before
  it; the chain leads from \<open>proto\<close> to \<open>last (proto # path)\<close>.
  \<open>node_for ctor st parser q m\<close>: the node \<open>m\<close> is the node of the enabled
  protocol \<open>q\<close>: it holds the dissector that \<open>parser->dissectors\<close> has for
  \<open>q\<close>, and its children hold, in this order, the dissectors of those
  \<open>subdissectors\<close> of \<open>q\<close> that are enabled.
\<close>

primrec enabled_path ::
  "(PacketProtoId \<Rightarrow> 's PacketDissector) \<Rightarrow> SettingStorage \<Rightarrow> PacketProtoId
     \<Rightarrow> PacketProtoId list \<Rightarrow> bool" where
  "enabled_path ctor st proto [] = proto_enabled st proto"
| "enabled_path ctor st proto (c # path) =
     (proto_enabled st proto \<and> c \<in> set (subdissectors (ctor proto)) \<and> enabled_path ctor st c path)"

definition node_for ::
  "(PacketProtoId \<Rightarrow> 's PacketDissector) \<Rightarrow> SettingStorage \<Rightarrow> 's PacketParser \<Rightarrow> PacketProtoId
     \<Rightarrow> GNode \<Rightarrow> bool" where
  "node_for ctor st parser q m \<longleftrightarrow>
     proto_enabled st q
   \<and> node_data m = dissectors parser q
   \<and> node_data m \<noteq> NULL
   \<and> dissector_at parser (node_data m) = ctor q
   \<and> map node_data (node_children m) =
       map (dissectors parser) (filter (proto_enabled st) (subdissectors (ctor q)))"

text \<open>
  The invariant of a parser: a protocol has a dissector only if it is enabled, the
  dissector is one of those allocated and is the structure that the constructor of
  the protocol has made, and every allocated dissector is the dissector of exactly
  one protocol. \<open>registered\<close>: every node of a tree holds the dissector of some
  protocol. \<open>extends\<close>: the second parser has kept the dissectors of the first.
\<close>

definition parser_inv ::
  "(PacketProtoId \<Rightarrow> 's PacketDissector) \<Rightarrow> SettingStorage \<Rightarrow> 's PacketParser \<Rightarrow> bool" where
  "parser_inv ctor st parser \<longleftrightarrow>
     (\<forall>proto. dissectors parser proto \<noteq> NULL \<longrightarrow>
        proto_enabled st proto
      \<and> dissectors parser proto \<le> allocated parser
      \<and> dissector_at parser (dissectors parser proto) = ctor proto)
   \<and> (\<forall>p. 0 < p \<and> p \<le> allocated parser \<longrightarrow> (\<exists>!proto. dissectors parser proto = p))"

definition registered :: "'s PacketParser \<Rightarrow> GNode \<Rightarrow> bool" where
  "registered parser node \<longleftrightarrow>
     (\<forall>d \<in> set (tree_data node). d \<noteq> NULL \<and> (\<exists>proto. dissectors parser proto = d))"

definition extends :: "'s PacketParser \<Rightarrow> 's PacketParser \<Rightarrow> bool" where
  "extends parser parser' \<longleftrightarrow>
     (\<forall>proto. dissectors parser proto \<noteq> NULL \<longrightarrow> dissectors parser' proto = dissectors parser proto)"

definition good_node ::
  "(PacketProtoId \<Rightarrow> 's PacketDissector) \<Rightarrow> SettingStorage \<Rightarrow> 's PacketParser \<Rightarrow> PacketProtoId
     \<Rightarrow> GNode option \<Rightarrow> 's PacketParser \<Rightarrow> bool" where
  "good_node ctor st parser proto r parser' \<longleftrightarrow>
     parser_inv ctor st parser' \<and> extends parser parser'
     \<and> (case r of
          None \<Rightarrow> parser' = parser \<and> dissectors parser proto = NULL \<and> \<not> proto_enabled st proto
        | Some n \<Rightarrow> registered parser' n \<and> node_data n = dissectors parser' proto
                    \<and> dissectors parser' proto \<noteq> NULL)"

definition good_children ::
  "(PacketProtoId \<Rightarrow> 's PacketDissector) \<Rightarrow> SettingStorage \<Rightarrow> 's PacketParser
     \<Rightarrow> GNode list \<Rightarrow> 's PacketParser \<Rightarrow> bool" where
  "good_children ctor st parser ns parser' \<longleftrightarrow>
     parser_inv ctor st parser' \<and> extends parser parser' \<and> (\<forall>n \<in> set ns. registered parser' n)"

text \<open>
  \<open>tree_shape\<close>: every node of a tree is the node of some enabled protocol.
  \<open>fresh_in_tree\<close>: every dissector that the second parser has and the first had
  not is held by a node of one of the trees. These are what a call of
  \<open>packet_parser_dissector_init\<close> (\<open>shaped_node\<close>) and the loop over the
  \<open>subdissectors\<close> (\<open>shaped_children\<close>) leave behind.
\<close>

definition tree_shape ::
  "(PacketProtoId \<Rightarrow> 's PacketDissector) \<Rightarrow> SettingStorage \<Rightarrow> 's PacketParser \<Rightarrow> GNode \<Rightarrow> bool" where
  "tree_shape ctor st parser n \<longleftrightarrow> (\<forall>m \<in> set (subnodes n). \<exists>q. node_for ctor st parser q m)"

definition fresh_in_tree :: "'s PacketParser \<Rightarrow> 's PacketParser \<Rightarrow> GNode list \<Rightarrow> bool" where
  "fresh_in_tree parser parser' ns \<longleftrightarrow>
     (\<forall>q. dissectors parser' q \<noteq> NULL \<and> dissectors parser q = NULL \<longrightarrow>
          (\<exists>n \<in> set ns. dissectors parser' q \<in> set (tree_data n)))"

definition shaped_node ::
  "(PacketProtoId \<Rightarrow> 's PacketDissector) \<Rightarrow> SettingStorage \<Rightarrow> 's PacketParser
     \<Rightarrow> GNode option \<Rightarrow> 's PacketParser \<Rightarrow> bool" where
  "shaped_node ctor st parser r parser' \<longleftrightarrow>
     (case r of
        None \<Rightarrow> True
      | Some n \<Rightarrow> tree_shape ctor st parser' n \<and> fresh_in_tree parser parser' [n])"

definition shaped_children ::
  "(PacketProtoId \<Rightarrow> 's PacketDissector) \<Rightarrow> SettingStorage \<Rightarrow> 's PacketParser
     \<Rightarrow> PacketProtoId list \<Rightarrow> GNode list \<Rightarrow> 's PacketParser \<Rightarrow> bool" where
  "shaped_children ctor st parser protos ns parser' \<longleftrightarrow>
     map node_data ns = map (dissectors parser') (filter (proto_enabled st) protos)
   \<and> (\<forall>n \<in> set ns. tree_shape ctor st parser' n)
   \<and> fresh_in_tree parser parser' ns"

text \<open>
  \<open>url_accepted\<close>: the constructor is called without a URL, or with one that
  \<open>capture_hep_parse_url\<close> accepts.
\<close>

definition url_accepted :: "string option \<Rightarrow> bool" where
  "url_accepted url =
     (case url of
        None \<Rightarrow> True
      | Some u \<Rightarrow> (case capture_hep_parse_url u of Inr hep_url \<Rightarrow> True | Inl err \<Rightarrow> False))"

text \<open>Example inputs.\<close>

definition toggle_storage :: "string \<Rightarrow> SettingStorage" where
  "toggle_storage v =
     \<lparr>setting_values = [(''SETTING_SYNTAX'', setting_bool_new 1024 ''syntax'' v)],
      aliases = [], externips = [], keybindings = []\<rparr>"

definition filter_methods_default :: string where
  "filter_methods_default =
     ''REGISTER,INVITE,SUBSCRIBE,NOTIFY,OPTIONS,PUBLISH,MESSAGE,INFO,REFER,UPDATE''"

definition empty_env :: Env where
  "empty_env =
     \<lparr>getenv = (\<lambda>n. None), home_dir = None, current_dir = ''/tmp'', fs = (\<lambda>f. None),
      attr_name_callindex = ''index''\<rparr>"


text \<open>
  A call with two messages, at the pointers 0 and 1, with the same packet contents: an
  INVITE from 10.0.0.1:5060 to 10.0.0.2:5060 and its retransmission.
\<close>

definition example_packet :: SipPacket where
  "example_packet =
     \<lparr>packet_src_address = \<lparr>ip = ''10.0.0.1'', port = 5060\<rparr>,
      packet_dst_address = \<lparr>ip = ''10.0.0.2'', port = 5060\<rparr>,
      packet_sip_method = 1,
      packet_sip_cseq = 1,
      packet_sip_payload = ''INVITE sip:bob@example.org SIP/2.0'',
      packet_sip_initial_transaction = True\<rparr>"

definition example_msg :: Message where
  "example_msg = \<lparr>packet = example_packet, call = 0, attributes = [''src'' \<mapsto> Some ''10.0.0.1'']\<rparr>"

definition example_heap :: Heap where
  "example_heap = \<lparr>msg_at = (\<lambda>p. example_msg), call_at = (\<lambda>c. \<lparr>msgs = [0, 1]\<rparr>)\<rparr>"

text \<open>
  A set of dissectors for the parser: the link layer hands over to IP, IP to UDP and
  TCP, UDP to SIP and RTP, TCP to SIP, SIP to SDP; RTP is switched off.
\<close>

definition example_ctor :: "PacketProtoId \<Rightarrow> unit PacketDissector" where
  "example_ctor proto =
     \<lparr>init = None, dissect = None,
      subdissectors =
        (case proto of
           PACKET_LINK \<Rightarrow> [PACKET_IP]
         | PACKET_IP \<Rightarrow> [PACKET_UDP, PACKET_TCP]
         | PACKET_UDP \<Rightarrow> [PACKET_SIP, PACKET_RTP]
         | PACKET_TCP \<Rightarrow> [PACKET_SIP]
         | PACKET_SIP \<Rightarrow> [PACKET_SDP]
         | _ \<Rightarrow> [])\<rparr>"

definition example_rank :: "PacketProtoId \<Rightarrow> nat" where
  "example_rank proto =
     (case proto of
        PACKET_LINK \<Rightarrow> 5 | PACKET_IP \<Rightarrow> 4 | PACKET_UDP \<Rightarrow> 3 | PACKET_TCP \<Rightarrow> 3
      | PACKET_SIP \<Rightarrow> 2 | PACKET_SDP \<Rightarrow> 1 | _ \<Rightarrow> 0)"

definition example_settings :: SettingStorage where
  "example_settings =
     \<lparr>setting_values =
        [(''SETTING_CAPTURE_PACKET_IP'', setting_bool_new 1024 ''capture.packet.ip'' ''on''),
         (''SETTING_CAPTURE_PACKET_UDP'', setting_bool_new 1024 ''capture.packet.udp'' ''on''),
         (''SETTING_CAPTURE_PACKET_TCP'', setting_bool_new 1024 ''capture.packet.tcp'' ''on''),
         (''SETTING_CAPTURE_PACKET_SIP'', setting_bool_new 1024 ''capture.packet.sip'' ''on''),
         (''SETTING_CAPTURE_PACKET_SDP'', setting_bool_new 1024 ''capture.packet.sdp'' ''on''),
         (''SETTING_CAPTURE_PACKET_RTP'', setting_bool_new 1024 ''capture.packet.rtp'' ''off'')],
      aliases = [], externips = [], keybindings = []\<rparr>"

text \<open>
  Settings in which IP has the value "yes", UDP and TCP are off and SIP is on.
\<close>

definition yes_settings :: SettingStorage where
  "yes_settings =
     \<lparr>setting_values =
        [(''SETTING_CAPTURE_PACKET_IP'', setting_bool_new 1024 ''capture.packet.ip'' ''yes''),
         (''SETTING_CAPTURE_PACKET_UDP'', setting_bool_new 1024 ''capture.packet.udp'' ''off''),
         (''SETTING_CAPTURE_PACKET_TCP'', setting_bool_new 1024 ''capture.packet.tcp'' ''off''),
         (''SETTING_CAPTURE_PACKET_SIP'', setting_bool_new 1024 ''capture.packet.sip'' ''on'')],
      aliases = [], externips = [], keybindings = []\<rparr>"

text \<open>
  Settings of the HEP input and output with the version \<open>v\<close>, and socket functions
  that succeed.
\<close>

definition version_settings :: "string \<Rightarrow> SettingStorage" where
  "version_settings v =
     \<lparr>setting_values =
        [(''SETTING_HEP_SEND_VER'', setting_number_new 1024 ''eep.send.version'' v),
         (''SETTING_HEP_SEND_ADDR'', setting_string_new 1024 ''eep.send.address'' ''127.0.0.1''),
         (''SETTING_HEP_SEND_PORT'', setting_number_new 1024 ''eep.send.port'' ''9060''),
         (''SETTING_HEP_SEND_PASS'', setting_string_new 1024 ''eep.send.pass'' ''''),
         (''SETTING_HEP_SEND_ID'', setting_number_new 1024 ''eep.send.id'' ''2000''),
         (''SETTING_HEP_LISTEN_VER'', setting_string_new 1024 ''eep.listen.version'' v),
         (''SETTING_HEP_LISTEN_ADDR'', setting_string_new 1024 ''eep.listen.address'' ''0.0.0.0''),
         (''SETTING_HEP_LISTEN_PORT'', setting_number_new 1024 ''eep.listen.port'' ''9060''),
         (''SETTING_HEP_LISTEN_PASS'', setting_string_new 1024 ''eep.listen.pass'' '''')],
      aliases = [], externips = [], keybindings = []\<rparr>"

definition example_sockets :: SocketEnv where
  "example_sockets =
     \<lparr>inet_socket_address_new_from_string = (\<lambda>host port. Some 1),
      socket_new = Inr 2,
      socket_bind = (\<lambda>sock addr. None),
      socket_connect = (\<lambda>sock addr. None)\<rparr>"

text \<open>
  A HEP output with the version \<open>v\<close> and the capture id 2000, without a password,
  and a packet: a SIP message over UDP from 10.0.0.1:5060 to 10.0.0.2:5060, captured at
  1700000000.123456. \<open>example_pton4\<close> is \<open>inet_pton\<close> on the two addresses.
\<close>

definition example_output :: "int \<Rightarrow> CaptureOutputHep" where
  "example_output v =
     \<lparr>out_version = v, out_password = None, out_id = 2000,
      out_url = \<lparr>url_proto = G_SOCKET_PROTOCOL_UDP, url_host = Some ''127.0.0.1'', url_port = 9060\<rparr>,
      out_socket = 2, out_sink = ''L:9060''\<rparr>"

definition example_hep_packet :: Packet where
  "example_hep_packet =
     \<lparr>frames = [\<lparr>ts_unix = 1700000000, ts_microsecond = 123456\<rparr>],
      proto_ip = Some \<lparr>ip_version = 4, ip_protocol = 17, srcip = ''10.0.0.1'', dstip = ''10.0.0.2''\<rparr>,
      proto_udp = Some \<lparr>sport = 5060, dport = 5060\<rparr>,
      proto_sip = Some \<lparr>payload = ''OPTIONS sip:b SIP/2.0''\<rparr>\<rparr>"

definition example_pton4 :: "string \<Rightarrow> bytes" where
  "example_pton4 s = (if s = ''10.0.0.1'' then [10, 0, 0, 1] else [10, 0, 0, 2])"

definition example_pton6 :: "string \<Rightarrow> bytes" where
  "example_pton6 s = replicate 16 0"

text \<open>
  The buffer of the example packet: the banner \<open>HEP3\<close>, the total length 118, the
  chunks 1 (family), 2 (protocol), 7 and 8 (ports), 9 and 10 (time stamp), 11
  (protocol type), 12 (capture id), 3 and 4 (IPv4 addresses) and 15 (payload).
\<close>

definition example_hep3_buffer :: bytes where
  "example_hep3_buffer =
     [72, 69, 80, 51, 0, 118,
      0, 0, 0, 1, 0, 7, 2,
      0, 0, 0, 2, 0, 7, 17,
      0, 0, 0, 7, 0, 8, 19, 196,
      0, 0, 0, 8, 0, 8, 19, 196,
      0, 0, 0, 9, 0, 10, 101, 83, 241, 0,
      0, 0, 0, 10, 0, 10, 0, 1, 226, 64,
      0, 0, 0, 11, 0, 7, 1,
      0, 0, 0, 12, 0, 8, 7, 208,
      0, 0, 0, 3, 0, 10, 10, 0, 0, 1,
      0, 0, 0, 4, 0, 10, 10, 0, 0, 2,
      0, 0, 0, 15, 0, 27,
      79, 80, 84, 73, 79, 78, 83, 32, 115, 105, 112, 58, 98, 32, 83, 73, 80, 47, 50, 46, 48]"

section \<open>Properties of the C string functions\<close>

lemma strcmp_refl: "strcmp s s = 0"
  by (induction s) simp_all

lemma strcasecmp_refl: "strcasecmp s s = 0"
  by (induction s) simp_all

lemma g_strcmp0_refl: "g_strcmp0 a a = 0"
  by (cases a) (simp_all add: strcmp_refl)

section \<open>Properties of the settings\<close>

subsection \<open>Toggling a boolean setting\<close>

lemma setting_by_id_update:
  "setting_by_id (st\<lparr>setting_values := AList.update i s (setting_values st)\<rparr>) i = Some s"
  by (simp add: setting_by_id_def AList.update_conv')

lemma setting_toggle_boolean:
  assumes "setting_by_id st i = Some sett" and "fmt sett = SETTING_FMT_BOOLEAN" and "3 < L"
  shows "setting_toggle L i st =
           Returned (st\<lparr>setting_values :=
             AList.update i (sett\<lparr>svalue := if setting_enabled st i then ''off'' else ''on''\<rparr>)
               (setting_values st)\<rparr>)"
  using assms
  by (simp add: setting_toggle_def setting_set_value_def SETTING_OFF_def SETTING_ON_def)

lemma setting_enabled_on:
  "setting_by_id st i = Some sett \<Longrightarrow> svalue sett = ''on'' \<Longrightarrow> setting_enabled st i"
  by (simp add: setting_enabled_def setting_has_value_def)

lemma setting_enabled_off:
  "setting_by_id st i = Some sett \<Longrightarrow> svalue sett = ''off'' \<Longrightarrow> \<not> setting_enabled st i"
  by (simp add: setting_enabled_def setting_has_value_def)

text \<open>
  Claim C10. For a boolean setting, \<open>setting_toggle\<close> returns, and the value it
  stores is "off" when the stored value was "on" and "on" when it was "off"; a second
  \<open>setting_toggle\<close> returns too, and the storage it leaves is the original one
  exactly when the original value was "on" or "off". (So the involution holds for
  these two values, and fails for every other stored value, such as "yes".)
  The value buffer has room for "off": \<open>SETTING_MAX_LEN\<close> is above 3.
\<close>

theorem setting_toggle_involution:
  assumes "setting_by_id st i = Some sett" and "fmt sett = SETTING_FMT_BOOLEAN" and "3 < L"
  shows "\<exists>st1 st2. setting_toggle L i st = Returned st1
           \<and> setting_toggle L i st1 = Returned st2
           \<and> (svalue sett = ''on'' \<longrightarrow> setting_get_value st1 i = Some ''off'')
           \<and> (svalue sett = ''off'' \<longrightarrow> setting_get_value st1 i = Some ''on'')
           \<and> (st2 = st \<longleftrightarrow> svalue sett = ''on'' \<or> svalue sett = ''off'')"
proof -
  define v1 where "v1 = (if setting_enabled st i then ''off'' else ''on'')"
  define s1 where "s1 = sett\<lparr>svalue := v1\<rparr>"
  define st1 where "st1 = st\<lparr>setting_values := AList.update i s1 (setting_values st)\<rparr>"
  define v2 where "v2 = (if setting_enabled st1 i then ''off'' else ''on'')"
  define s2 where "s2 = s1\<lparr>svalue := v2\<rparr>"
  define st2 where "st2 = st1\<lparr>setting_values := AList.update i s2 (setting_values st1)\<rparr>"
  have by1: "setting_by_id st1 i = Some s1"
    unfolding st1_def by (rule setting_by_id_update)
  have by2: "setting_by_id st2 i = Some s2"
    unfolding st2_def by (rule setting_by_id_update)
  have t1: "setting_toggle L i st = Returned st1"
    unfolding st1_def s1_def v1_def by (rule setting_toggle_boolean [OF assms])
  have t2: "setting_toggle L i st1 = Returned st2"
    unfolding st2_def s2_def v2_def
    by (rule setting_toggle_boolean [OF by1 _ assms(3)]) (simp add: s1_def assms(2))
  have en1: "setting_enabled st1 i \<longleftrightarrow> v1 = ''on''"
    using by1 by (auto simp: setting_enabled_def setting_has_value_def s1_def v1_def)
  have v2: "v2 = (if v1 = ''on'' then ''off'' else ''on'')"
    by (simp add: v2_def en1)
  have on: "setting_get_value st1 i = Some ''off''" if "svalue sett = ''on''"
    using setting_enabled_on [OF assms(1) that]
    by (simp add: setting_get_value_def by1 s1_def v1_def)
  have off: "setting_get_value st1 i = Some ''on''" if "svalue sett = ''off''"
    using setting_enabled_off [OF assms(1) that]
    by (simp add: setting_get_value_def by1 s1_def v1_def)
  have restored: "st2 = st" if "svalue sett = ''on'' \<or> svalue sett = ''off''"
  proof -
    have "v2 = svalue sett"
      using that setting_enabled_on [OF assms(1)] setting_enabled_off [OF assms(1)]
      by (auto simp: v2 v1_def)
    then have "s2 = sett" by (simp add: s2_def s1_def)
    moreover have "AList.update i sett (setting_values st) = setting_values st"
      using assms(1) by (simp add: AList.update_triv setting_by_id_def)
    ultimately show ?thesis by (simp add: st2_def st1_def)
  qed
  have only_then: "svalue sett = ''on'' \<or> svalue sett = ''off''" if "st2 = st"
  proof -
    from that by2 assms(1) have "s2 = sett" by simp
    then have "svalue sett = svalue s2" by simp
    then have "svalue sett = v2" by (simp add: s2_def)
    then show ?thesis by (auto simp: v2)
  qed
  from t1 t2 on off restored only_then show ?thesis by blast
qed

theorem setting_toggle_involution_witness:
  "setting_toggle 1024 ''SETTING_SYNTAX'' (toggle_storage ''on'') = Returned (toggle_storage ''off'')
   \<and> setting_toggle 1024 ''SETTING_SYNTAX'' (toggle_storage ''off'') = Returned (toggle_storage ''on'')
   \<and> setting_toggle 1024 ''SETTING_SYNTAX'' (toggle_storage ''yes'') = Returned (toggle_storage ''off'')"
proof -
  have by_id: "setting_by_id (toggle_storage v) ''SETTING_SYNTAX'' = Some (setting_bool_new 1024 ''syntax'' v)" for v
    by (simp add: toggle_storage_def setting_by_id_def)
  have fmt: "fmt (setting_bool_new 1024 ''syntax'' v) = SETTING_FMT_BOOLEAN" for v
    by (simp add: setting_bool_new_def)
  have L: "(3::nat) < 1024" by simp
  note inst = setting_toggle_involution [OF by_id fmt L]
  have eval: "setting_toggle 1024 ''SETTING_SYNTAX'' (toggle_storage ''on'') = Returned (toggle_storage ''off'')"
    "setting_toggle 1024 ''SETTING_SYNTAX'' (toggle_storage ''off'') = Returned (toggle_storage ''on'')"
    "setting_toggle 1024 ''SETTING_SYNTAX'' (toggle_storage ''yes'') = Returned (toggle_storage ''off'')"
    by (simp_all add: toggle_storage_def setting_toggle_def setting_enabled_def
        setting_has_value_def setting_set_value_def SETTING_OFF_def SETTING_ON_def
        setting_by_id_def setting_bool_new_def)
  from inst [of "''on''"] eval show ?thesis by simp
qed

subsection \<open>The defaults of \<open>settings_init\<close>\<close>

lemma map_of_fold_update:
  "map_of (fold (\<lambda>(i, s). AList.update i s) xs acc) = map_of acc ++ map_of (rev xs)"
proof (induction xs arbitrary: acc)
  case Nil
  show ?case by simp
next
  case (Cons x xs)
  obtain k v where x: "x = (k, v)" by (cases x)
  have "map_of (fold (\<lambda>(i, s). AList.update i s) (x # xs) acc)
          = map_of (AList.update k v acc) ++ map_of (rev xs)"
    by (simp add: x Cons.IH)
  also have "\<dots> = (map_of acc)(k \<mapsto> v) ++ map_of (rev xs)"
    by (simp only: AList.update_conv')
  also have "\<dots> = map_of acc ++ map_of (rev (x # xs))"
    by (simp add: x fun_eq_iff map_add_def split: option.splits)
  finally show ?case .
qed

lemma length_filter_methods_default: "length filter_methods_default = 74"
  by (simp add: filter_methods_default_def)

lemma default_filter_methods:
  "map_of (rev (default_settings L env)) ''SETTING_FILTER_METHODS''
     = Some (setting_string_new L ''filter.methods'' filter_methods_default)"
  by (simp add: default_settings_def filter_methods_default_def)

lemma split_filter_methods_default:
  "g_strsplit filter_methods_default CHR '','' (- 1) =
     [''REGISTER'', ''INVITE'', ''SUBSCRIBE'', ''NOTIFY'', ''OPTIONS'', ''PUBLISH'',
      ''MESSAGE'', ''INFO'', ''REFER'', ''UPDATE'']"
  by (simp add: g_strsplit_def filter_methods_default_def G_MAXINT_def)

lemma settings_init_defaults:
  assumes "use_defaults options" and "opt_file options = None"
  shows "\<exists>cfg. settings_init L env options = Returned cfg
           \<and> files_read cfg = []
           \<and> setting_by_id (settings cfg) = map_of (rev (default_settings L env))"
  using assms by (simp add: settings_init_def setting_by_id_def map_of_fold_update fun_eq_iff)

text \<open>
  Claim C7. After \<open>settings_init\<close> with the defaults (no configuration file is
  read: \<open>use_defaults\<close> is on and no file is given), the value of
  \<open>filter.methods\<close>, split at its commas, is as a set the ten methods INVITE,
  REGISTER, SUBSCRIBE, NOTIFY, OPTIONS, PUBLISH, MESSAGE, INFO, REFER and UPDATE.
  The value buffer has room for the 74 bytes of the default.
\<close>

theorem settings_init_filter_methods:
  assumes "use_defaults options" and "opt_file options = None" and "74 < L"
  shows "\<exists>cfg v. settings_init L env options = Returned cfg
           \<and> setting_get_value (settings cfg) ''SETTING_FILTER_METHODS'' = Some v
           \<and> set (g_strsplit v CHR '','' (- 1)) =
               {''INVITE'', ''REGISTER'', ''SUBSCRIBE'', ''NOTIFY'', ''OPTIONS'', ''PUBLISH'',
                ''MESSAGE'', ''INFO'', ''REFER'', ''UPDATE''}"
proof -
  from settings_init_defaults [OF assms(1,2)] obtain cfg where
    cfg: "settings_init L env options = Returned cfg"
    and by_id: "setting_by_id (settings cfg) = map_of (rev (default_settings L env))"
    by blast
  have "take L filter_methods_default = filter_methods_default"
    using assms(3) by (simp add: length_filter_methods_default)
  then have v: "setting_get_value (settings cfg) ''SETTING_FILTER_METHODS'' = Some filter_methods_default"
    by (simp add: setting_get_value_def by_id default_filter_methods setting_string_new_def
        length_filter_methods_default)
  have "set (g_strsplit filter_methods_default CHR '','' (- 1)) =
          {''INVITE'', ''REGISTER'', ''SUBSCRIBE'', ''NOTIFY'', ''OPTIONS'', ''PUBLISH'',
           ''MESSAGE'', ''INFO'', ''REFER'', ''UPDATE''}"
    unfolding split_filter_methods_default by (simp add: insert_commute)
  with cfg v show ?thesis by blast
qed

theorem settings_init_filter_methods_witness:
  "\<exists>cfg. settings_init 1024 empty_env \<lparr>use_defaults = True, opt_file = None\<rparr> = Returned cfg
      \<and> setting_get_value (settings cfg) ''SETTING_FILTER_METHODS'' = Some filter_methods_default"
proof -
  have "\<exists>cfg v. settings_init 1024 empty_env \<lparr>use_defaults = True, opt_file = None\<rparr> = Returned cfg
           \<and> setting_get_value (settings cfg) ''SETTING_FILTER_METHODS'' = Some v
           \<and> set (g_strsplit v CHR '','' (- 1)) =
               {''INVITE'', ''REGISTER'', ''SUBSCRIBE'', ''NOTIFY'', ''OPTIONS'', ''PUBLISH'',
                ''MESSAGE'', ''INFO'', ''REFER'', ''UPDATE''}"
    by (rule settings_init_filter_methods) simp_all
  then obtain cfg v where
    cfg: "settings_init 1024 empty_env \<lparr>use_defaults = True, opt_file = None\<rparr> = Returned cfg"
    and v: "setting_get_value (settings cfg) ''SETTING_FILTER_METHODS'' = Some v"
    by blast
  from settings_init_defaults [of "\<lparr>use_defaults = True, opt_file = None\<rparr>" 1024 empty_env] cfg
  have "setting_by_id (settings cfg) = map_of (rev (default_settings 1024 empty_env))"
    by simp
  then have "setting_get_value (settings cfg) ''SETTING_FILTER_METHODS'' = Some filter_methods_default"
    by (simp add: setting_get_value_def default_filter_methods setting_string_new_def
        length_filter_methods_default)
  with cfg show ?thesis by blast
qed

subsection \<open>The configuration files that \<open>settings_init\<close> reads\<close>



lemma sscanf_line_fields:
  assumes "sscanf_line line = Scanned t opt v"
  shows "length t < 20" and "length opt < 50" and "length v < 50"
  using assms
  by (auto simp: sscanf_line_def Let_def split: prod.splits if_splits)

lemma setting_read_line_overflow:
  "setting_read_line L ''set capture.limit 01234567890123456789012345678901234567890123456789'' st
     = Buffer_overflow"
  by (simp add: setting_read_line_def sscanf_line_def scan_word_def isspace_c_def)












section \<open>Properties of the messages\<close>

subsection \<open>The attribute cache\<close>

text \<open>
  Claim C9. If the attribute cache of a message holds nothing for an attribute,
  \<open>msg_set_cached_attribute\<close> leaves the message as it is (so
  \<open>msg_get_cached_attribute\<close> still returns nothing); whenever it changes the
  message, the attribute had a stored value and the new value differs from it, and
  the attribute then has the new value; the entries of all other attributes are
  never changed.
\<close>

theorem msg_set_cached_attribute_frame:
  "(msg_get_cached_attribute msg attr = None \<longrightarrow> msg_set_cached_attribute msg attr v = msg)
   \<and> (msg_set_cached_attribute msg attr v \<noteq> msg \<longrightarrow>
        (\<exists>old. msg_get_cached_attribute msg attr = Some old \<and> v \<noteq> Some old)
        \<and> msg_get_cached_attribute (msg_set_cached_attribute msg attr v) attr = v)
   \<and> (\<forall>other :: Attribute. attr_name other \<noteq> attr_name attr \<longrightarrow>
        attributes (msg_set_cached_attribute msg attr v) (attr_name other)
          = attributes msg (attr_name other))"
proof (intro conjI impI allI)
  assume "msg_get_cached_attribute msg attr = None"
  then show "msg_set_cached_attribute msg attr v = msg"
    by (simp add: msg_set_cached_attribute_def msg_get_cached_attribute_def)
next
  assume changed: "msg_set_cached_attribute msg attr v \<noteq> msg"
  then have cond: "g_hash_table_lookup (attributes msg) (attr_name attr) \<noteq> None"
      "g_strcmp0 (g_hash_table_lookup (attributes msg) (attr_name attr)) v \<noteq> 0"
    by (auto simp: msg_set_cached_attribute_def Let_def split: if_splits)
  from cond(1) obtain old where old: "g_hash_table_lookup (attributes msg) (attr_name attr) = Some old"
    by blast
  with cond(2) have "v \<noteq> Some old" using g_strcmp0_refl [of "Some old"] by auto
  with old show "\<exists>old. msg_get_cached_attribute msg attr = Some old \<and> v \<noteq> Some old"
    by (simp add: msg_get_cached_attribute_def)
  from cond show "msg_get_cached_attribute (msg_set_cached_attribute msg attr v) attr = v"
    by (simp add: msg_set_cached_attribute_def msg_get_cached_attribute_def Let_def
        g_hash_table_lookup_def g_hash_table_insert_def g_hash_table_remove_def)
next
  fix other :: Attribute
  assume "attr_name other \<noteq> attr_name attr"
  then show "attributes (msg_set_cached_attribute msg attr v) (attr_name other)
               = attributes msg (attr_name other)"
    by (simp add: msg_set_cached_attribute_def Let_def g_hash_table_insert_def
        g_hash_table_remove_def)
qed

theorem msg_set_cached_attribute_frame_witness:
  "msg_get_cached_attribute example_msg \<lparr>attr_name = ''dst''\<rparr> = None
   \<and> msg_set_cached_attribute example_msg \<lparr>attr_name = ''dst''\<rparr> (Some ''10.0.0.2'') = example_msg
   \<and> msg_get_cached_attribute
         (msg_set_cached_attribute example_msg \<lparr>attr_name = ''src''\<rparr> (Some ''10.0.0.9''))
         \<lparr>attr_name = ''src''\<rparr> = Some ''10.0.0.9''"
proof -
  have none: "msg_get_cached_attribute example_msg \<lparr>attr_name = ''dst''\<rparr> = None"
    by (simp add: msg_get_cached_attribute_def g_hash_table_lookup_def example_msg_def)
  have "attributes (msg_set_cached_attribute example_msg \<lparr>attr_name = ''src''\<rparr> (Some ''10.0.0.9'')) ''src''
          \<noteq> attributes example_msg ''src''"
    by (simp add: msg_set_cached_attribute_def g_hash_table_lookup_def g_hash_table_insert_def
        g_hash_table_remove_def example_msg_def)
  then have changed: "msg_set_cached_attribute example_msg \<lparr>attr_name = ''src''\<rparr> (Some ''10.0.0.9'') \<noteq> example_msg"
    by auto
  from msg_set_cached_attribute_frame [of example_msg "\<lparr>attr_name = ''dst''\<rparr>" "Some ''10.0.0.2''"] none
  have a: "msg_set_cached_attribute example_msg \<lparr>attr_name = ''dst''\<rparr> (Some ''10.0.0.2'') = example_msg"
    by blast
  from msg_set_cached_attribute_frame [of example_msg "\<lparr>attr_name = ''src''\<rparr>" "Some ''10.0.0.9''"] changed
  have b: "msg_get_cached_attribute
         (msg_set_cached_attribute example_msg \<lparr>attr_name = ''src''\<rparr> (Some ''10.0.0.9''))
         \<lparr>attr_name = ''src''\<rparr> = Some ''10.0.0.9''"
    by blast
  from none a b show ?thesis by blast
qed

subsection \<open>Retransmissions\<close>

lemma retrans_loop_step:
  "retrans_loop H msg arr (Suc i) =
     (if retrans_match H msg (arr ! i) then Some (arr ! i) else retrans_loop H msg arr i)"
  by (simp add: retrans_match_def Let_def)

lemma retrans_loop_None:
  "retrans_loop H msg arr n = None \<longleftrightarrow> (\<forall>j<n. \<not> retrans_match H msg (arr ! j))"
proof (induction n)
  case 0
  show ?case by simp
next
  case (Suc n)
  show ?case unfolding retrans_loop_step using Suc.IH by (auto simp: less_Suc_eq)
qed

lemma retrans_loop_Some:
  "retrans_loop H msg arr n = Some r \<Longrightarrow>
     \<exists>j<n. arr ! j = r \<and> retrans_match H msg r
        \<and> (\<forall>k. j < k \<and> k < n \<longrightarrow> \<not> retrans_match H msg (arr ! k))"
proof (induction n)
  case 0
  then show ?case by simp
next
  case (Suc n)
  show ?case
  proof (cases "retrans_match H msg (arr ! n)")
    case True
    with Suc.prems have "arr ! n = r" unfolding retrans_loop_step by simp
    with True show ?thesis by auto
  next
    case False
    with Suc.prems have "retrans_loop H msg arr n = Some r" unfolding retrans_loop_step by simp
    from Suc.IH [OF this] obtain j where j: "j < n" "arr ! j = r" "retrans_match H msg r"
      "\<forall>k. j < k \<and> k < n \<longrightarrow> \<not> retrans_match H msg (arr ! k)" by blast
    have "\<forall>k. j < k \<and> k < Suc n \<longrightarrow> \<not> retrans_match H msg (arr ! k)"
      using j(4) False by (auto simp: less_Suc_eq)
    with j(1,2,3) show ?thesis by (intro exI [of _ j]) simp
  qed
qed

text \<open>
  Claim C4, as stated, fails: \<open>msg_is_retrans\<close> scans the whole call from its last
  message down and skips only the message itself, so for a message that is not the
  last one of its call it can return a message stored after it. In the example call
  the INVITE at pointer 0 is followed by its retransmission at pointer 1, and
  \<open>msg_is_retrans\<close> of the first returns the second.
\<close>

theorem msg_is_retrans_later_message:
  "msg_call_msgs example_heap 0 = [0, 1] \<and> msg_is_retrans example_heap 0 = Some 1"
  by (simp add: msg_is_retrans_def msg_call_msgs_def example_heap_def example_msg_def
      example_packet_def numeral_2_eq_2 addressport_equals_def msg_src_address_def
      msg_dst_address_def msg_get_payload_def strcmp_refl strcasecmp_refl)

text \<open>
  Claim C4, amended. \<open>msg_is_retrans\<close> returns a message exactly when the call of the
  message holds another message (stored before or after it) with the same source and
  destination addresses, ports included, and a payload that is equal up to case; the
  message returned is the last such message in the order of the call, so a message
  whose payload differs is never returned; and when the message is the last one of its
  call, the message returned stands before it.
\<close>

theorem msg_is_retrans_last_match:
  "(msg_is_retrans H msg \<noteq> None \<longleftrightarrow>
      (\<exists>j<length (msg_call_msgs H msg). retrans_match H msg (msg_call_msgs H msg ! j)))
   \<and> (\<forall>r. msg_is_retrans H msg = Some r \<longrightarrow>
        (\<exists>j<length (msg_call_msgs H msg).
            msg_call_msgs H msg ! j = r
          \<and> retrans_match H msg r
          \<and> (\<forall>k. j < k \<and> k < length (msg_call_msgs H msg)
                 \<longrightarrow> \<not> retrans_match H msg (msg_call_msgs H msg ! k))
          \<and> (msg_call_msgs H msg ! (length (msg_call_msgs H msg) - 1) = msg
                 \<longrightarrow> j < length (msg_call_msgs H msg) - 1)))"
proof (intro conjI allI impI)
  show "msg_is_retrans H msg \<noteq> None \<longleftrightarrow>
      (\<exists>j<length (msg_call_msgs H msg). retrans_match H msg (msg_call_msgs H msg ! j))"
    by (simp add: msg_is_retrans_def retrans_loop_None)
next
  fix r
  assume "msg_is_retrans H msg = Some r"
  then have "retrans_loop H msg (msg_call_msgs H msg) (length (msg_call_msgs H msg)) = Some r"
    by (simp add: msg_is_retrans_def)
  from retrans_loop_Some [OF this] obtain j where
    j: "j < length (msg_call_msgs H msg)" "msg_call_msgs H msg ! j = r" "retrans_match H msg r"
       "\<forall>k. j < k \<and> k < length (msg_call_msgs H msg)
            \<longrightarrow> \<not> retrans_match H msg (msg_call_msgs H msg ! k)"
    by blast
  have last: "j < length (msg_call_msgs H msg) - 1"
    if "msg_call_msgs H msg ! (length (msg_call_msgs H msg) - 1) = msg"
  proof -
    from j(3) have "r \<noteq> msg" by (simp add: retrans_match_def)
    with that j(2) have "j \<noteq> length (msg_call_msgs H msg) - 1" by auto
    with j(1) show ?thesis by simp
  qed
  show "\<exists>j<length (msg_call_msgs H msg).
            msg_call_msgs H msg ! j = r
          \<and> retrans_match H msg r
          \<and> (\<forall>k. j < k \<and> k < length (msg_call_msgs H msg)
                 \<longrightarrow> \<not> retrans_match H msg (msg_call_msgs H msg ! k))
          \<and> (msg_call_msgs H msg ! (length (msg_call_msgs H msg) - 1) = msg
                 \<longrightarrow> j < length (msg_call_msgs H msg) - 1)"
  proof (intro exI [of _ j] conjI impI)
    show "j < length (msg_call_msgs H msg)" by (rule j(1))
    show "msg_call_msgs H msg ! j = r" by (rule j(2))
    show "retrans_match H msg r" by (rule j(3))
    show "\<forall>k. j < k \<and> k < length (msg_call_msgs H msg)
                 \<longrightarrow> \<not> retrans_match H msg (msg_call_msgs H msg ! k)" by (rule j(4))
    show "j < length (msg_call_msgs H msg) - 1"
      if "msg_call_msgs H msg ! (length (msg_call_msgs H msg) - 1) = msg"
      by (rule last [OF that])
  qed
qed

theorem msg_is_retrans_last_match_witness:
  "msg_is_retrans example_heap 1 = Some 0
   \<and> msg_call_msgs example_heap 1 ! (length (msg_call_msgs example_heap 1) - 1) = 1
   \<and> (\<exists>j. j < length (msg_call_msgs example_heap 1) - 1
          \<and> msg_call_msgs example_heap 1 ! j = 0
          \<and> retrans_match example_heap 1 0)"
proof -
  have r: "msg_is_retrans example_heap 1 = Some 0"
    by (simp add: msg_is_retrans_def msg_call_msgs_def example_heap_def example_msg_def
        example_packet_def numeral_2_eq_2 addressport_equals_def msg_src_address_def
        msg_dst_address_def msg_get_payload_def strcmp_refl strcasecmp_refl)
  have l: "msg_call_msgs example_heap 1 ! (length (msg_call_msgs example_heap 1) - 1) = 1"
    by (simp add: msg_call_msgs_def example_heap_def)
  from msg_is_retrans_last_match [of example_heap 1] r l show ?thesis by blast
qed

subsection \<open>Initial transactions\<close>

lemma initial_transaction_loop_find:
  "initial_transaction_loop H msg arr i =
     (case find (transaction_request H msg) (scanned H msg (drop i arr)) of
        Some c \<Rightarrow> packet_sip_initial_transaction (packet (msg_at H c))
      | None \<Rightarrow> packet_sip_initial_transaction (packet (msg_at H msg)))"
proof (induction "length arr - i" arbitrary: i)
  case 0
  then have "\<not> i < length arr" by simp
  then show ?case
    by (simp add: initial_transaction_loop.simps [of H msg arr i] scanned_def)
next
  case (Suc n)
  then have lt: "i < length arr" and n: "n = length arr - Suc i" by simp_all
  have d: "drop i arr = arr ! i # drop (Suc i) arr"
    using lt by (simp add: Cons_nth_drop_Suc)
  note IH = Suc.hyps(1) [OF n]
  show ?case
    unfolding initial_transaction_loop.simps [of H msg arr i] d
    using lt
    by (simp add: IH Let_def scanned_def transaction_request_def)
qed

text \<open>
  Claim C5, as stated, fails: when the scan finds a request of the transaction,
  \<open>msg_is_initial_transaction\<close> returns the flag of that request, which can be true.
  In the example call the retransmitted INVITE at pointer 1 is preceded by the INVITE
  at pointer 0, a request with the same CSeq number from the same source address, and
  \<open>msg_is_initial_transaction\<close> of the retransmission is true all the same.
\<close>

theorem msg_is_initial_transaction_earlier_request:
  "msg_call_msgs example_heap 1 = [0, 1]
   \<and> msg_is_request example_heap 0
   \<and> msg_is_request example_heap 1
   \<and> msg_get_cseq example_heap 0 = msg_get_cseq example_heap 1
   \<and> addressport_equals (packet_src_address (packet (msg_at example_heap 1)))
                          (packet_src_address (packet (msg_at example_heap 0)))
   \<and> msg_is_initial_transaction example_heap 1"
  by (simp add: msg_is_initial_transaction_def initial_transaction_loop.simps
      msg_call_msgs_def example_heap_def example_msg_def example_packet_def
      msg_is_request_def msg_get_cseq_def addressport_equals_def strcmp_refl)

text \<open>
  Claim C5, amended. \<open>msg_is_initial_transaction\<close> scans the requests of the call in
  the order of the call (up to the message itself when the message is a request) for
  the first request with the CSeq number of the message whose source address is the
  source address of the message (for a request) or whose destination address is the
  source address of the message (for a response); it returns the initial-transaction
  flag of the packet of that request, and the flag of the message's own packet only
  when there is no such request.
\<close>

theorem msg_is_initial_transaction_scan:
  "msg_is_initial_transaction H msg =
     (case find (transaction_request H msg) (scanned H msg (msg_call_msgs H msg)) of
        Some c \<Rightarrow> packet_sip_initial_transaction (packet (msg_at H c))
      | None \<Rightarrow> packet_sip_initial_transaction (packet (msg_at H msg)))"
  unfolding msg_is_initial_transaction_def
  using initial_transaction_loop_find [of H msg "msg_call_msgs H msg" 0] by simp

section \<open>Properties of the parser\<close>

subsection \<open>The dispatch step\<close>

lemma next_dissector_loop_in_order:
  "next_dissector_loop parser (Some n) i data =
     dispatch_in_order parser (drop i (node_children n)) data"
proof (induction "length (node_children n) - i" arbitrary: parser i data)
  case 0
  then show ?case
    by (simp add: next_dissector_loop.simps [of parser "Some n" i data] g_node_n_children_def)
next
  case (Suc k)
  then have lt: "i < length (node_children n)" and k: "k = length (node_children n) - Suc i"
    by simp_all
  have d: "drop i (node_children n) = node_children n ! i # drop (Suc i) (node_children n)"
    using lt by (simp add: Cons_nth_drop_Suc)
  note IH = Suc.hyps(1) [OF k]
  show ?case
    unfolding next_dissector_loop.simps [of parser "Some n" i data] d
    using lt
    by (simp add: IH Let_def g_node_n_children_def g_node_nth_child_def
        split: option.splits prod.splits)
qed

text \<open>
  Claim C2. For a buffer that is not \<open>NULL\<close>, \<open>packet_parser_next_dissector\<close>
  visits the children of the current node in the order of their registration, hands
  to each child's \<open>dissect\<close> the bytes that the child before it has returned, stops
  at the first child whose \<open>dissect\<close> returns none, and returns none in that case
  and the bytes that remain after the last child otherwise: it is
  \<open>dispatch_in_order\<close> on the children of the current node.
\<close>

theorem packet_parser_next_dissector_in_order:
  "packet_parser_next_dissector parser (Some data) =
     dispatch_in_order parser (case current parser of Some n \<Rightarrow> node_children n | None \<Rightarrow> []) data"
proof (cases "current parser")
  case None
  then show ?thesis
    by (simp add: packet_parser_next_dissector_def next_dissector_loop.simps [of parser None 0 data]
        g_node_n_children_def)
next
  case (Some n)
  then show ?thesis
    using next_dissector_loop_in_order [of parser n 0 data]
    by (simp add: packet_parser_next_dissector_def)
qed

subsection \<open>Setting up the dissector tree\<close>

lemma dissector_new_enabled:
  "dissector_new ctor st parser proto =
     (if proto_enabled st proto then Some (dissector_alloc ctor parser proto) else None)"
  by (cases proto) (simp_all add: dissector_new_def proto_enabled_def proto_setting_def)

lemma dissector_alloc_fields:
  "fst (dissector_alloc ctor parser proto) = Suc (allocated parser)"
  "dissectors (snd (dissector_alloc ctor parser proto)) = (dissectors parser)(proto := Suc (allocated parser))"
  "dissector_at (snd (dissector_alloc ctor parser proto)) = (dissector_at parser)(Suc (allocated parser) := ctor proto)"
  "allocated (snd (dissector_alloc ctor parser proto)) = Suc (allocated parser)"
  by (simp_all add: dissector_alloc_def Let_def split: option.splits)

lemma extends_refl: "extends parser parser"
  by (simp add: extends_def)

lemma extends_trans: "extends a b \<Longrightarrow> extends b c \<Longrightarrow> extends a c"
  by (simp add: extends_def)

lemma registered_extends: "registered a n \<Longrightarrow> extends a b \<Longrightarrow> registered b n"
  unfolding registered_def extends_def by metis

lemma parser_invD1:
  "parser_inv ctor st parser \<Longrightarrow> dissectors parser q \<noteq> NULL \<Longrightarrow>
     proto_enabled st q \<and> dissectors parser q \<le> allocated parser
     \<and> dissector_at parser (dissectors parser q) = ctor q"
  by (simp add: parser_inv_def)

lemma parser_invD2:
  "parser_inv ctor st parser \<Longrightarrow> 0 < p \<Longrightarrow> p \<le> allocated parser \<Longrightarrow>
     \<exists>!q. dissectors parser q = p"
  by (simp add: parser_inv_def)

lemma parser_invI:
  assumes "\<And>q. dissectors parser q \<noteq> NULL \<Longrightarrow>
             proto_enabled st q \<and> dissectors parser q \<le> allocated parser
             \<and> dissector_at parser (dissectors parser q) = ctor q"
    and "\<And>p. 0 < p \<Longrightarrow> p \<le> allocated parser \<Longrightarrow> \<exists>!q. dissectors parser q = p"
  shows "parser_inv ctor st parser"
  unfolding parser_inv_def using assms by simp

lemma dissector_alloc_inv:
  assumes inv: "parser_inv ctor st parser"
    and null: "dissectors parser proto = NULL"
    and en: "proto_enabled st proto"
  shows "parser_inv ctor st (snd (dissector_alloc ctor parser proto))"
    and "extends parser (snd (dissector_alloc ctor parser proto))"
proof -
  let ?p' = "snd (dissector_alloc ctor parser proto)"
  let ?n = "Suc (allocated parser)"
  note f = dissector_alloc_fields [of ctor parser proto]
  have le0: "dissectors parser q \<le> allocated parser" for q
  proof (cases "dissectors parser q = NULL")
    case True
    then show ?thesis by (simp add: NULL_def)
  next
    case False
    from parser_invD1 [OF inv False] show ?thesis by simp
  qed
  have part1: "proto_enabled st q \<and> dissectors ?p' q \<le> allocated ?p'
               \<and> dissector_at ?p' (dissectors ?p' q) = ctor q"
    if nn': "dissectors ?p' q \<noteq> NULL" for q
  proof (cases "q = proto")
    case True
    then show ?thesis using en by (simp add: f)
  next
    case False
    with nn' have nn: "dissectors parser q \<noteq> NULL" by (simp add: f)
    from parser_invD1 [OF inv nn] have old: "proto_enabled st q"
      "dissectors parser q \<le> allocated parser"
      "dissector_at parser (dissectors parser q) = ctor q" by simp_all
    from old(2) have "dissectors parser q \<noteq> ?n" by simp
    with False old show ?thesis by (simp add: f)
  qed
  have part2: "\<exists>!q. dissectors ?p' q = p" if p0: "0 < p" and ple: "p \<le> allocated ?p'" for p
  proof (cases "p = ?n")
    case True
    show ?thesis
    proof (rule ex1I [of _ proto])
      show "dissectors ?p' proto = p" using True by (simp add: f)
    next
      fix q assume q: "dissectors ?p' q = p"
      show "q = proto"
      proof (rule ccontr)
        assume "q \<noteq> proto"
        with q True have "dissectors parser q = ?n" by (simp add: f)
        with le0 [of q] show False by simp
      qed
    qed
  next
    case False
    with ple have ple': "p \<le> allocated parser" by (simp add: f)
    from parser_invD2 [OF inv p0 ple'] obtain q0 where q0: "dissectors parser q0 = p"
      and q0u: "\<And>q. dissectors parser q = p \<Longrightarrow> q = q0" by blast
    from q0 p0 null have ne: "q0 \<noteq> proto" by (auto simp: NULL_def)
    show ?thesis
    proof (rule ex1I [of _ q0])
      show "dissectors ?p' q0 = p" using q0 ne by (simp add: f)
    next
      fix q assume q: "dissectors ?p' q = p"
      have "q \<noteq> proto" using q False by (auto simp: f)
      with q have "dissectors parser q = p" by (simp add: f)
      then show "q = q0" by (rule q0u)
    qed
  qed
  show "parser_inv ctor st ?p'"
    by (rule parser_invI) (rule part1, assumption, rule part2, assumption+)
  show "extends parser ?p'"
    unfolding extends_def
  proof (intro allI impI)
    fix q assume "dissectors parser q \<noteq> NULL"
    with null have "q \<noteq> proto" by auto
    then show "dissectors ?p' q = dissectors parser q" by (simp add: f)
  qed
qed

lemma children_from_node:
  assumes node: "\<And>parser proto r parser'. parser_inv ctor st parser \<Longrightarrow>
      packet_parser_dissector_init fuel ctor st parser proto = Some (r, parser') \<Longrightarrow>
      good_node ctor st parser proto r parser'"
  shows "parser_inv ctor st parser \<Longrightarrow>
      dissector_init_children fuel ctor st parser protos = Some (ns, parser') \<Longrightarrow>
      good_children ctor st parser ns parser'"
proof (induction protos arbitrary: parser ns parser')
  case Nil
  then show ?case by (simp add: good_children_def extends_refl)
next
  case (Cons proto protos)
  from Cons.prems(2) obtain r parser1 ns1 where
    a: "packet_parser_dissector_init fuel ctor st parser proto = Some (r, parser1)"
    and b: "dissector_init_children fuel ctor st parser1 protos = Some (ns1, parser')"
    and ns: "ns = (case r of None \<Rightarrow> ns1 | Some n \<Rightarrow> n # ns1)"
    by (auto split: option.splits)
  from node [OF Cons.prems(1) a] have g1: "good_node ctor st parser proto r parser1" .
  then have inv1: "parser_inv ctor st parser1" and e1: "extends parser parser1"
    by (simp_all add: good_node_def)
  from Cons.IH [OF inv1 b] have g2: "good_children ctor st parser1 ns1 parser'" .
  then have inv2: "parser_inv ctor st parser'" and e2: "extends parser1 parser'"
    and r2: "\<forall>n \<in> set ns1. registered parser' n"
    by (simp_all add: good_children_def)
  have "\<forall>n \<in> set ns. registered parser' n"
  proof (cases r)
    case None
    with ns r2 show ?thesis by simp
  next
    case (Some n)
    with g1 have "registered parser1 n" by (simp add: good_node_def)
    from registered_extends [OF this e2] Some ns r2 show ?thesis by simp
  qed
  with inv2 extends_trans [OF e1 e2] show ?case by (simp add: good_children_def)
qed

lemma node_step:
  assumes children: "\<And>parser protos ns parser'. parser_inv ctor st parser \<Longrightarrow>
      dissector_init_children fuel ctor st parser protos = Some (ns, parser') \<Longrightarrow>
      good_children ctor st parser ns parser'"
    and inv: "parser_inv ctor st parser"
    and run: "packet_parser_dissector_init (Suc fuel) ctor st parser proto = Some (r, parser')"
  shows "good_node ctor st parser proto r parser'"
proof (cases "dissectors parser proto = NULL \<and> \<not> proto_enabled st proto")
  case True
  with run have "r = None" "parser' = parser" by (simp_all add: dissector_new_enabled)
  with True inv show ?thesis by (simp add: good_node_def extends_refl)
next
  case False
  define d where "d = (if dissectors parser proto = NULL then Suc (allocated parser) else dissectors parser proto)"
  define parser1 where "parser1 = (if dissectors parser proto = NULL then snd (dissector_alloc ctor parser proto) else parser)"
  have sel: "(if dissectors parser proto = NULL then dissector_new ctor st parser proto
            else Some (dissectors parser proto, parser)) = Some (d, parser1)"
    using False dissector_alloc_fields(1) [of ctor parser proto]
    by (auto simp: d_def parser1_def dissector_new_enabled prod_eq_iff)
  have inv1: "parser_inv ctor st parser1" and e1: "extends parser parser1"
    using False inv dissector_alloc_inv [of ctor st parser proto]
    by (auto simp: parser1_def extends_refl)
  have d1: "dissectors parser1 proto = d" "d \<noteq> NULL"
    by (auto simp: d_def parser1_def dissector_alloc_fields NULL_def)
  from run sel obtain ns where
    c: "dissector_init_children fuel ctor st parser1 (subdissectors (dissector_at parser1 d)) = Some (ns, parser')"
    and r: "r = Some (GNode d ns)"
    by (auto split: option.splits)
  from children [OF inv1 c] have inv2: "parser_inv ctor st parser'" and e2: "extends parser1 parser'"
    and r2: "\<forall>n \<in> set ns. registered parser' n"
    by (simp_all add: good_children_def)
  from e2 d1 have d2: "dissectors parser' proto = d" by (simp add: extends_def)
  have "registered parser' (GNode d ns)"
    using r2 d2 d1(2) by (auto simp: registered_def)
  with inv2 extends_trans [OF e1 e2] d2 d1(2) r show ?thesis
    by (simp add: good_node_def)
qed

lemma dissector_init_good:
  "parser_inv ctor st parser \<Longrightarrow>
     packet_parser_dissector_init fuel ctor st parser proto = Some (r, parser') \<Longrightarrow>
     good_node ctor st parser proto r parser'"
proof (induction fuel arbitrary: parser proto r parser')
  case 0
  then show ?case by simp
next
  case (Suc fuel)
  show ?case
    by (rule node_step [OF children_from_node [OF Suc.IH] Suc.prems]) assumption+
qed

lemma parser_inv_new: "parser_inv ctor st (packet_parser_new s)"
  by (rule parser_invI) (simp_all add: packet_parser_new_def)

lemma children_returns_from_node:
  assumes node: "\<And>parser proto. parser_inv ctor st parser \<Longrightarrow> rank proto < fuel \<Longrightarrow>
      \<exists>r parser'. packet_parser_dissector_init fuel ctor st parser proto = Some (r, parser')"
  shows "parser_inv ctor st parser \<Longrightarrow> \<forall>c \<in> set protos. rank c < fuel \<Longrightarrow>
      \<exists>ns parser'. dissector_init_children fuel ctor st parser protos = Some (ns, parser')"
proof (induction protos arbitrary: parser)
  case Nil
  show ?case by simp
next
  case (Cons proto protos)
  from Cons.prems(2) have "rank proto < fuel" by simp
  from node [OF Cons.prems(1) this] obtain r parser1 where
    a: "packet_parser_dissector_init fuel ctor st parser proto = Some (r, parser1)" by blast
  from dissector_init_good [OF Cons.prems(1) a] have "parser_inv ctor st parser1"
    by (simp add: good_node_def)
  moreover from Cons.prems(2) have "\<forall>c \<in> set protos. rank c < fuel" by simp
  ultimately obtain ns parser2 where
    b: "dissector_init_children fuel ctor st parser1 protos = Some (ns, parser2)"
    using Cons.IH by blast
  from a b show ?case by simp
qed

lemma dissector_init_returns:
  assumes acyclic: "\<forall>proto c. c \<in> set (subdissectors (ctor proto)) \<longrightarrow> rank c < rank proto"
  shows "parser_inv ctor st parser \<Longrightarrow> rank proto < fuel \<Longrightarrow>
      \<exists>r parser'. packet_parser_dissector_init fuel ctor st parser proto = Some (r, parser')"
proof (induction fuel arbitrary: parser proto)
  case 0
  then show ?case by simp
next
  case (Suc fuel)
  show ?case
  proof (cases "dissectors parser proto = NULL \<and> \<not> proto_enabled st proto")
    case True
    then show ?thesis by (simp add: dissector_new_enabled)
  next
    case False
    define d where "d = (if dissectors parser proto = NULL then Suc (allocated parser) else dissectors parser proto)"
    define parser1 where "parser1 = (if dissectors parser proto = NULL then snd (dissector_alloc ctor parser proto) else parser)"
    have sel: "(if dissectors parser proto = NULL then dissector_new ctor st parser proto
              else Some (dissectors parser proto, parser)) = Some (d, parser1)"
      using False dissector_alloc_fields(1) [of ctor parser proto]
      by (auto simp: d_def parser1_def dissector_new_enabled prod_eq_iff)
    have inv1: "parser_inv ctor st parser1"
      using False Suc.prems(1) dissector_alloc_inv(1) [of ctor st parser proto]
      by (auto simp: parser1_def)
    have d1: "dissectors parser1 proto = d" "d \<noteq> NULL"
      by (auto simp: d_def parser1_def dissector_alloc_fields NULL_def)
    from parser_invD1 [OF inv1, of proto] d1 have "dissector_at parser1 d = ctor proto" by simp
    moreover have "\<forall>c \<in> set (subdissectors (ctor proto)). rank c < fuel"
      using acyclic Suc.prems(2) by fastforce
    ultimately obtain ns parser2 where
      "dissector_init_children fuel ctor st parser1 (subdissectors (dissector_at parser1 d)) = Some (ns, parser2)"
      using children_returns_from_node [of ctor st rank fuel parser1 "subdissectors (ctor proto)"]
        Suc.IH inv1 by auto
    with sel show ?thesis by simp
  qed
qed

lemma proto_enabled_iff:
  "proto_enabled st proto \<longleftrightarrow>
     proto = PACKET_LINK
     \<or> (\<exists>sett. proto \<noteq> PACKET_LINK \<and> proto_setting proto = Some sett
          \<and> (setting_has_value st sett ''on'' \<or> setting_has_value st sett ''yes''))"
  by (cases proto) (simp_all add: proto_enabled_def proto_setting_def setting_enabled_def)

lemma tree_data_subnodes: "tree_data n = map node_data (subnodes n)"
proof (induction n)
  case (GNode d cs)
  have "map tree_data cs = map (\<lambda>c. map node_data (subnodes c)) cs"
    by (rule map_cong [OF refl]) (rule GNode)
  then have "concat (map tree_data cs) = concat (map (\<lambda>c. map node_data (subnodes c)) cs)"
    by (rule arg_cong)
  then show ?case by (simp add: map_concat comp_def)
qed

lemma subnodes_self: "n \<in> set (subnodes n)"
  by (cases n) simp

lemma subnodes_child: "c \<in> set (node_children m) \<Longrightarrow> c \<in> set (subnodes m)"
  using subnodes_self [of c] by (cases m) auto

lemma subnodes_trans:
  "m \<in> set (subnodes n) \<Longrightarrow> k \<in> set (subnodes m) \<Longrightarrow> k \<in> set (subnodes n)"
proof (induction n)
  case (GNode d cs)
  from GNode.prems(1) consider "m = GNode d cs" | c where "c \<in> set cs" "m \<in> set (subnodes c)"
    by auto
  then show ?case
  proof cases
    case 1
    with GNode.prems(2) show ?thesis by simp
  next
    case 2
    from GNode.IH [OF 2 GNode.prems(2)] 2(1) show ?thesis by auto
  qed
qed

lemma parser_inv_inj:
  assumes inv: "parser_inv ctor st parser"
    and eq: "dissectors parser a = dissectors parser b"
    and nn: "dissectors parser a \<noteq> NULL"
  shows "a = b"
proof -
  from parser_invD1 [OF inv nn] have le: "dissectors parser a \<le> allocated parser" by simp
  from nn have pos: "0 < dissectors parser a" by (simp add: NULL_def)
  from parser_invD2 [OF inv pos le] obtain q0 where
    u: "\<And>q. dissectors parser q = dissectors parser a \<Longrightarrow> q = q0" by blast
  from u [of a] u [of b] eq show ?thesis by simp
qed

lemma tree_shape_extends:
  assumes sh: "tree_shape ctor st parser n"
    and ext: "extends parser parser'"
    and inv: "parser_inv ctor st parser'"
  shows "tree_shape ctor st parser' n"
  unfolding tree_shape_def
proof
  fix m assume m: "m \<in> set (subnodes n)"
  with sh obtain q where q: "node_for ctor st parser q m" unfolding tree_shape_def by blast
  then have en: "proto_enabled st q" and d: "node_data m = dissectors parser q"
    and nn: "node_data m \<noteq> NULL"
    and ch: "map node_data (node_children m) =
               map (dissectors parser) (filter (proto_enabled st) (subdissectors (ctor q)))"
    by (simp_all add: node_for_def)
  from d nn ext have d': "dissectors parser' q = dissectors parser q" by (simp add: extends_def)
  have same: "dissectors parser' c = dissectors parser c"
    if c: "c \<in> set (filter (proto_enabled st) (subdissectors (ctor q)))" for c
  proof -
    from c have "dissectors parser c \<in>
        set (map (dissectors parser) (filter (proto_enabled st) (subdissectors (ctor q))))"
      by (simp only: set_map) (rule imageI)
    with ch have "dissectors parser c \<in> set (map node_data (node_children m))" by simp
    then obtain k where k: "k \<in> set (node_children m)" "node_data k = dissectors parser c"
      by auto
    from k(1) have "k \<in> set (subnodes m)" by (rule subnodes_child)
    with m have "k \<in> set (subnodes n)" by (rule subnodes_trans)
    with sh obtain q' where "node_for ctor st parser q' k" unfolding tree_shape_def by blast
    then have "node_data k \<noteq> NULL" by (simp add: node_for_def)
    with k(2) ext show ?thesis by (simp add: extends_def)
  qed
  have ch': "map (dissectors parser') (filter (proto_enabled st) (subdissectors (ctor q))) =
             map (dissectors parser) (filter (proto_enabled st) (subdissectors (ctor q)))"
    by (rule map_cong [OF refl]) (rule same)
  from parser_invD1 [OF inv, of q] d d' nn have "dissector_at parser' (node_data m) = ctor q"
    by simp
  with en d d' nn ch ch' have "node_for ctor st parser' q m" by (simp add: node_for_def)
  then show "\<exists>q. node_for ctor st parser' q m" ..
qed

lemma dissector_init_children_good:
  "parser_inv ctor st parser \<Longrightarrow>
     dissector_init_children fuel ctor st parser protos = Some (ns, parser') \<Longrightarrow>
     good_children ctor st parser ns parser'"
  by (rule children_from_node [OF dissector_init_good]) assumption+

lemma children_shape_from_node:
  assumes node: "\<And>parser proto r parser'. parser_inv ctor st parser \<Longrightarrow>
      packet_parser_dissector_init fuel ctor st parser proto = Some (r, parser') \<Longrightarrow>
      shaped_node ctor st parser r parser'"
  shows "parser_inv ctor st parser \<Longrightarrow>
      dissector_init_children fuel ctor st parser protos = Some (ns, parser') \<Longrightarrow>
      shaped_children ctor st parser protos ns parser'"
proof (induction protos arbitrary: parser ns parser')
  case Nil
  then show ?case by (simp add: shaped_children_def fresh_in_tree_def)
next
  case (Cons proto protos)
  from Cons.prems(2) obtain r parser1 ns1 where
    a: "packet_parser_dissector_init fuel ctor st parser proto = Some (r, parser1)"
    and b: "dissector_init_children fuel ctor st parser1 protos = Some (ns1, parser')"
    and ns: "ns = (case r of None \<Rightarrow> ns1 | Some n \<Rightarrow> n # ns1)"
    by (auto split: option.splits)
  from dissector_init_good [OF Cons.prems(1) a] have g1: "good_node ctor st parser proto r parser1" .
  then have inv1: "parser_inv ctor st parser1" by (simp add: good_node_def)
  from dissector_init_children_good [OF inv1 b]
  have inv2: "parser_inv ctor st parser'" and e2: "extends parser1 parser'"
    by (simp_all add: good_children_def)
  from Cons.IH [OF inv1 b]
  have m2: "map node_data ns1 = map (dissectors parser') (filter (proto_enabled st) protos)"
    and t2: "\<forall>n \<in> set ns1. tree_shape ctor st parser' n"
    and f2: "fresh_in_tree parser1 parser' ns1"
    by (simp_all add: shaped_children_def)
  from node [OF Cons.prems(1) a] have s1: "shaped_node ctor st parser r parser1" .
  show ?case
  proof (cases r)
    case None
    with g1 have "parser1 = parser" and "\<not> proto_enabled st proto" by (simp_all add: good_node_def)
    with None ns m2 t2 f2 show ?thesis by (simp add: shaped_children_def)
  next
    case (Some n)
    with g1 have nd: "node_data n = dissectors parser1 proto"
      and nn: "dissectors parser1 proto \<noteq> NULL" by (simp_all add: good_node_def)
    from parser_invD1 [OF inv1 nn] have en: "proto_enabled st proto" by simp
    from e2 nn have keep: "dissectors parser' proto = dissectors parser1 proto"
      by (simp add: extends_def)
    from s1 Some have t1: "tree_shape ctor st parser1 n" and f1: "fresh_in_tree parser parser1 [n]"
      by (simp_all add: shaped_node_def)
    from tree_shape_extends [OF t1 e2 inv2] have t1': "tree_shape ctor st parser' n" .
    have fresh: "fresh_in_tree parser parser' (n # ns1)"
      unfolding fresh_in_tree_def
    proof (intro allI impI)
      fix q assume q: "dissectors parser' q \<noteq> NULL \<and> dissectors parser q = NULL"
      show "\<exists>k \<in> set (n # ns1). dissectors parser' q \<in> set (tree_data k)"
      proof (cases "dissectors parser1 q = NULL")
        case True
        with q f2 obtain k where "k \<in> set ns1" "dissectors parser' q \<in> set (tree_data k)"
          unfolding fresh_in_tree_def by blast
        then show ?thesis by auto
      next
        case False
        with q f1 have "dissectors parser1 q \<in> set (tree_data n)"
          unfolding fresh_in_tree_def by auto
        moreover from False e2 have "dissectors parser' q = dissectors parser1 q"
          by (simp add: extends_def)
        ultimately show ?thesis by simp
      qed
    qed
    from Some ns nd keep en m2 t1' t2 fresh show ?thesis by (simp add: shaped_children_def)
  qed
qed

lemma shaped_node_step:
  assumes children: "\<And>parser protos ns parser'. parser_inv ctor st parser \<Longrightarrow>
      dissector_init_children fuel ctor st parser protos = Some (ns, parser') \<Longrightarrow>
      shaped_children ctor st parser protos ns parser'"
    and inv: "parser_inv ctor st parser"
    and run: "packet_parser_dissector_init (Suc fuel) ctor st parser proto = Some (r, parser')"
  shows "shaped_node ctor st parser r parser'"
proof (cases "dissectors parser proto = NULL \<and> \<not> proto_enabled st proto")
  case True
  with run have "r = None" by (simp add: dissector_new_enabled)
  then show ?thesis by (simp add: shaped_node_def)
next
  case False
  define d where "d = (if dissectors parser proto = NULL then Suc (allocated parser) else dissectors parser proto)"
  define parser1 where "parser1 = (if dissectors parser proto = NULL then snd (dissector_alloc ctor parser proto) else parser)"
  have sel: "(if dissectors parser proto = NULL then dissector_new ctor st parser proto
            else Some (dissectors parser proto, parser)) = Some (d, parser1)"
    using False dissector_alloc_fields(1) [of ctor parser proto]
    by (auto simp: d_def parser1_def dissector_new_enabled prod_eq_iff)
  have inv1: "parser_inv ctor st parser1"
    using False inv dissector_alloc_inv(1) [of ctor st parser proto]
    by (auto simp: parser1_def)
  have d1: "dissectors parser1 proto = d" "d \<noteq> NULL"
    by (auto simp: d_def parser1_def dissector_alloc_fields NULL_def)
  from run sel obtain ns where
    c: "dissector_init_children fuel ctor st parser1 (subdissectors (dissector_at parser1 d)) = Some (ns, parser')"
    and r: "r = Some (GNode d ns)"
    by (auto split: option.splits)
  from parser_invD1 [OF inv1, of proto] d1
  have en: "proto_enabled st proto" and at1: "dissector_at parser1 d = ctor proto" by simp_all
  from c at1 have c': "dissector_init_children fuel ctor st parser1 (subdissectors (ctor proto)) = Some (ns, parser')"
    by simp
  from dissector_init_children_good [OF inv1 c']
  have inv2: "parser_inv ctor st parser'" and e2: "extends parser1 parser'"
    by (simp_all add: good_children_def)
  from children [OF inv1 c']
  have m2: "map node_data ns =
              map (dissectors parser') (filter (proto_enabled st) (subdissectors (ctor proto)))"
    and t2: "\<forall>n \<in> set ns. tree_shape ctor st parser' n"
    and f2: "fresh_in_tree parser1 parser' ns"
    by (simp_all add: shaped_children_def)
  from e2 d1 have d2: "dissectors parser' proto = d" by (simp add: extends_def)
  from parser_invD1 [OF inv2, of proto] d2 d1(2) have at2: "dissector_at parser' d = ctor proto"
    by simp
  have root: "node_for ctor st parser' proto (GNode d ns)"
    using en d2 d1(2) at2 m2 by (simp add: node_for_def)
  have shape: "tree_shape ctor st parser' (GNode d ns)"
    unfolding tree_shape_def
  proof
    fix m assume "m \<in> set (subnodes (GNode d ns))"
    then consider "m = GNode d ns" | n where "n \<in> set ns" "m \<in> set (subnodes n)" by auto
    then show "\<exists>q. node_for ctor st parser' q m"
    proof cases
      case 1
      with root show ?thesis by blast
    next
      case 2
      with t2 show ?thesis unfolding tree_shape_def by blast
    qed
  qed
  have fresh: "fresh_in_tree parser parser' [GNode d ns]"
    unfolding fresh_in_tree_def
  proof (intro allI impI)
    fix q assume q: "dissectors parser' q \<noteq> NULL \<and> dissectors parser q = NULL"
    show "\<exists>n \<in> set [GNode d ns]. dissectors parser' q \<in> set (tree_data n)"
    proof (cases "dissectors parser1 q = NULL")
      case True
      with q f2 obtain k where "k \<in> set ns" "dissectors parser' q \<in> set (tree_data k)"
        unfolding fresh_in_tree_def by blast
      then show ?thesis by auto
    next
      case False
      have "q = proto"
      proof (rule ccontr)
        assume "q \<noteq> proto"
        then have "dissectors parser1 q = dissectors parser q"
          by (simp add: parser1_def dissector_alloc_fields)
        with False q show False by simp
      qed
      with d2 show ?thesis by simp
    qed
  qed
  from shape fresh r show ?thesis by (simp add: shaped_node_def)
qed

lemma dissector_init_shape:
  "parser_inv ctor st parser \<Longrightarrow>
     packet_parser_dissector_init fuel ctor st parser proto = Some (r, parser') \<Longrightarrow>
     shaped_node ctor st parser r parser'"
proof (induction fuel arbitrary: parser proto r parser')
  case 0
  then show ?case by simp
next
  case (Suc fuel)
  show ?case
    by (rule shaped_node_step [OF children_shape_from_node [OF Suc.IH] Suc.prems]) assumption+
qed

lemma enabled_path_start: "enabled_path ctor st q path \<Longrightarrow> proto_enabled st q"
  by (cases path) simp_all

lemma path_has_node:
  assumes sh: "tree_shape ctor st parser n" and inv: "parser_inv ctor st parser"
  shows "m \<in> set (subnodes n) \<Longrightarrow> node_data m = dissectors parser q \<Longrightarrow>
         enabled_path ctor st q path \<Longrightarrow>
         \<exists>k \<in> set (subnodes n). node_data k = dissectors parser (last (q # path))"
proof (induction path arbitrary: q m)
  case Nil
  then show ?case by auto
next
  case (Cons c path)
  from Cons.prems(3) have cs: "c \<in> set (subdissectors (ctor q))"
    and rest: "enabled_path ctor st c path" by simp_all
  from enabled_path_start [OF rest] have enc: "proto_enabled st c" .
  from sh Cons.prems(1) obtain q' where q': "node_for ctor st parser q' m"
    unfolding tree_shape_def by blast
  then have "dissectors parser q' = dissectors parser q" and "dissectors parser q' \<noteq> NULL"
    using Cons.prems(2) by (simp_all add: node_for_def)
  from parser_inv_inj [OF inv this] have "q' = q" .
  with q' have "map node_data (node_children m) =
      map (dissectors parser) (filter (proto_enabled st) (subdissectors (ctor q)))"
    by (simp add: node_for_def)
  moreover from cs enc have "dissectors parser c \<in>
      set (map (dissectors parser) (filter (proto_enabled st) (subdissectors (ctor q))))"
    by simp
  ultimately have "dissectors parser c \<in> set (map node_data (node_children m))" by simp
  then obtain k where k: "k \<in> set (node_children m)" "node_data k = dissectors parser c" by auto
  from k(1) have "k \<in> set (subnodes m)" by (rule subnodes_child)
  with Cons.prems(1) have "k \<in> set (subnodes n)" by (rule subnodes_trans)
  from Cons.IH [OF this k(2) rest] show ?case by simp
qed

lemma node_has_path:
  assumes inv: "parser_inv ctor st parser"
  shows "tree_shape ctor st parser n \<Longrightarrow> node_data n = dissectors parser p \<Longrightarrow>
         m \<in> set (subnodes n) \<Longrightarrow>
         \<exists>path. enabled_path ctor st p path \<and> node_data m = dissectors parser (last (p # path))"
proof (induction n arbitrary: p)
  case (GNode d cs)
  from GNode.prems(1) subnodes_self [of "GNode d cs"] obtain q where
    q: "node_for ctor st parser q (GNode d cs)" unfolding tree_shape_def by blast
  then have "dissectors parser q = dissectors parser p" and "dissectors parser q \<noteq> NULL"
    using GNode.prems(2) by (simp_all add: node_for_def)
  from parser_inv_inj [OF inv this] have "q = p" .
  with q have en: "proto_enabled st p"
    and ch: "map node_data cs =
               map (dissectors parser) (filter (proto_enabled st) (subdissectors (ctor p)))"
    by (simp_all add: node_for_def)
  from GNode.prems(3) consider "m = GNode d cs" | c where "c \<in> set cs" "m \<in> set (subnodes c)"
    by auto
  then show ?case
  proof cases
    case 1
    with en GNode.prems(2) have
      "enabled_path ctor st p [] \<and> node_data m = dissectors parser (last (p # []))" by simp
    then show ?thesis by blast
  next
    case 2
    from 2(1) have "node_data c \<in> set (map node_data cs)" by simp
    with ch obtain c' where c': "c' \<in> set (subdissectors (ctor p))" "proto_enabled st c'"
      "node_data c = dissectors parser c'" by auto
    have shc: "tree_shape ctor st parser c"
      unfolding tree_shape_def
    proof
      fix k assume "k \<in> set (subnodes c)"
      with 2(1) have "k \<in> set (subnodes (GNode d cs))" by auto
      with GNode.prems(1) show "\<exists>q. node_for ctor st parser q k" unfolding tree_shape_def by blast
    qed
    from GNode.IH [OF 2(1) shc c'(3) 2(2)] obtain path where
      path: "enabled_path ctor st c' path" "node_data m = dissectors parser (last (c' # path))"
      by blast
    with en c'(1) have
      "enabled_path ctor st p (c' # path) \<and> node_data m = dissectors parser (last (p # c' # path))"
      by simp
    then show ?thesis by blast
  qed
qed

text \<open>
  Claim C3, as stated, fails on two counts. The dissectors of the example hand over
  from the link layer to IP, from IP to UDP and TCP, and from UDP and TCP to SIP. With
  the settings \<open>yes_settings\<close> the setting of IP has the value "yes", which is not
  "on", and IP gets a dissector (the dissector 2) and a node all the same, since
  \<open>setting_enabled\<close> takes "yes" as well as "on". The setting of SIP has the value
  "on", and SIP gets no dissector: UDP and TCP are off, so no call ever reaches SIP.
\<close>

theorem dissector_init_yes_and_unreached:
  "setting_get_value yes_settings ''SETTING_CAPTURE_PACKET_IP'' = Some ''yes''
   \<and> setting_get_value yes_settings ''SETTING_CAPTURE_PACKET_SIP'' = Some ''on''
   \<and> map_option fst
       (packet_parser_dissector_init 6 example_ctor yes_settings (packet_parser_new ()) PACKET_LINK)
     = Some (Some (GNode 1 [GNode 2 []]))
   \<and> map_option (\<lambda>(r, parser'). (dissectors parser' PACKET_IP, dissectors parser' PACKET_SIP))
       (packet_parser_dissector_init 6 example_ctor yes_settings (packet_parser_new ()) PACKET_LINK)
     = Some (2, NULL)"
  by (simp add: eval_nat_numeral dissector_new_def proto_setting_def setting_enabled_def
      setting_has_value_def setting_by_id_def setting_get_value_def setting_bool_new_def
      yes_settings_def dissector_alloc_def Let_def packet_parser_new_def example_ctor_def NULL_def)

text \<open>
  Claim C3, amended. A protocol is enabled (\<open>proto_enabled\<close>) when it is the link
  layer, or one of the nine other protocols of the \<open>switch\<close> and its setting has the
  value "on" or "yes". Let the \<open>subdissectors\<close> lists of the constructors be free of
  cycles (\<open>rank\<close> decreases along them) and let the bound on the depth be above the
  rank of the protocol. On a new parser \<open>packet_parser_dissector_init\<close> returns. For
  a protocol that is not enabled it returns \<open>NULL\<close> and leaves the parser as it was:
  no dissector, no node. For an enabled protocol it returns a node that holds the
  dissector of the protocol. In the parser it leaves, no protocol that is not enabled
  has a dissector; a protocol has a dissector exactly when a chain of enabled
  protocols leads to it from the protocol of the call along the \<open>subdissectors\<close>
  lists (so an enabled protocol that is reached only through protocols that are not
  enabled has none); every node made is the node of an enabled protocol: it holds the
  dissector that \<open>parser->dissectors\<close> has for the protocol, which is the structure
  the constructor of that protocol has made, and its children are the nodes of the
  enabled \<open>subdissectors\<close> of the protocol, in their order; every dissector made is
  held by a node; and every dissector allocated is the dissector of exactly one
  protocol, so a protocol has one dissector, whatever the number of nodes that hold it.
\<close>

theorem dissector_init_enabled_only:
  assumes acyclic: "\<forall>proto c. c \<in> set (subdissectors (ctor proto)) \<longrightarrow> rank c < rank proto"
    and fuel: "rank proto < fuel"
  shows "\<exists>r parser'.
           packet_parser_dissector_init fuel ctor st (packet_parser_new s) proto = Some (r, parser')
         \<and> (\<not> proto_enabled st proto \<longrightarrow> r = None \<and> parser' = packet_parser_new s)
         \<and> (proto_enabled st proto \<longrightarrow> (\<exists>node. r = Some node \<and> node_data node = dissectors parser' proto))
         \<and> (\<forall>q. \<not> proto_enabled st q \<longrightarrow> dissectors parser' q = NULL)
         \<and> (\<forall>q. dissectors parser' q \<noteq> NULL \<longleftrightarrow>
                (\<exists>path. enabled_path ctor st proto path \<and> last (proto # path) = q))
         \<and> (\<forall>node. r = Some node \<longrightarrow>
               (\<forall>m \<in> set (subnodes node). \<exists>q. node_for ctor st parser' q m))
         \<and> (\<forall>q. dissectors parser' q \<noteq> NULL \<longrightarrow>
                (\<exists>node. r = Some node \<and> dissectors parser' q \<in> set (tree_data node)))
         \<and> (\<forall>node. r = Some node \<longrightarrow>
               (\<forall>d \<in> set (tree_data node). d \<noteq> NULL \<and>
                  (\<exists>q. proto_enabled st q \<and> dissectors parser' q = d \<and> dissector_at parser' d = ctor q)))
         \<and> (\<forall>p. 0 < p \<and> p \<le> allocated parser' \<longrightarrow> (\<exists>!q. dissectors parser' q = p))
         \<and> (\<forall>q. dissectors parser' q \<le> allocated parser')"
proof -
  let ?new = "packet_parser_new s"
  have inv0: "parser_inv ctor st ?new" by (rule parser_inv_new)
  from dissector_init_returns [OF acyclic inv0 fuel] obtain r parser' where
    run: "packet_parser_dissector_init fuel ctor st ?new proto = Some (r, parser')" by blast
  from dissector_init_good [OF inv0 run] have good: "good_node ctor st ?new proto r parser'" .
  then have inv: "parser_inv ctor st parser'" by (simp add: good_node_def)
  from dissector_init_shape [OF inv0 run] have shaped: "shaped_node ctor st ?new r parser'" .
  have dis: "dissectors parser' q = NULL" if "\<not> proto_enabled st q" for q
    using parser_invD1 [OF inv, of q] that by blast
  have k1: "\<not> proto_enabled st proto \<longrightarrow> r = None \<and> parser' = ?new"
  proof
    assume ne: "\<not> proto_enabled st proto"
    show "r = None \<and> parser' = ?new"
    proof (cases r)
      case None
      with good show ?thesis by (simp add: good_node_def)
    next
      case (Some n)
      with good have "dissectors parser' proto \<noteq> NULL" by (simp add: good_node_def)
      with dis [OF ne] show ?thesis by simp
    qed
  qed
  have c2: "\<exists>node. r = Some node \<and> node_data node = dissectors parser' proto"
    if "proto_enabled st proto"
    using good that by (cases r) (simp_all add: good_node_def)
  then have k2: "proto_enabled st proto \<longrightarrow>
                   (\<exists>node. r = Some node \<and> node_data node = dissectors parser' proto)"
    by (rule impI)
  have k3: "\<forall>q. \<not> proto_enabled st q \<longrightarrow> dissectors parser' q = NULL"
    using dis by (intro allI impI)
  have k5: "\<forall>node. r = Some node \<longrightarrow>
               (\<forall>m \<in> set (subnodes node). \<exists>q. node_for ctor st parser' q m)"
  proof (intro allI impI ballI)
    fix node m assume "r = Some node" and "m \<in> set (subnodes node)"
    with shaped show "\<exists>q. node_for ctor st parser' q m"
      unfolding shaped_node_def tree_shape_def by auto
  qed
  have held: "\<exists>node. r = Some node \<and> dissectors parser' q \<in> set (tree_data node)"
    if nn: "dissectors parser' q \<noteq> NULL" for q
  proof (cases r)
    case None
    with good have "parser' = ?new" by (simp add: good_node_def)
    with nn show ?thesis by (simp add: packet_parser_new_def)
  next
    case (Some n)
    with shaped have "fresh_in_tree ?new parser' [n]" by (simp add: shaped_node_def)
    moreover have "dissectors ?new q = NULL" by (simp add: packet_parser_new_def)
    ultimately have "dissectors parser' q \<in> set (tree_data n)"
      using nn unfolding fresh_in_tree_def by auto
    with Some show ?thesis by simp
  qed
  then have k6: "\<forall>q. dissectors parser' q \<noteq> NULL \<longrightarrow>
                (\<exists>node. r = Some node \<and> dissectors parser' q \<in> set (tree_data node))"
    by (intro allI impI)
  have to_path: "\<exists>path. enabled_path ctor st proto path \<and> last (proto # path) = q"
    if nn: "dissectors parser' q \<noteq> NULL" for q
  proof -
    from held [OF nn] obtain node where node: "r = Some node"
      "dissectors parser' q \<in> set (tree_data node)" by blast
    then obtain m where m: "m \<in> set (subnodes node)" "node_data m = dissectors parser' q"
      by (auto simp: tree_data_subnodes)
    from node(1) shaped have sh: "tree_shape ctor st parser' node" by (simp add: shaped_node_def)
    from node(1) good have root: "node_data node = dissectors parser' proto"
      by (simp add: good_node_def)
    from node_has_path [OF inv sh root m(1)] obtain path where
      path: "enabled_path ctor st proto path"
      "node_data m = dissectors parser' (last (proto # path))" by blast
    from path(2) m(2) have "dissectors parser' q = dissectors parser' (last (proto # path))" by simp
    from parser_inv_inj [OF inv this nn] have "last (proto # path) = q" by simp
    with path(1) show ?thesis by (intro exI [of _ path] conjI)
  qed
  have from_path: "dissectors parser' (last (proto # path)) \<noteq> NULL"
    if path: "enabled_path ctor st proto path" for path
  proof -
    from enabled_path_start [OF path] have "proto_enabled st proto" .
    from c2 [OF this] obtain node where node: "r = Some node"
      "node_data node = dissectors parser' proto" by blast
    from node(1) shaped have sh: "tree_shape ctor st parser' node" by (simp add: shaped_node_def)
    from path_has_node [OF sh inv subnodes_self node(2) path] obtain k where
      k: "k \<in> set (subnodes node)" "node_data k = dissectors parser' (last (proto # path))"
      by blast
    from sh k(1) obtain q' where "node_for ctor st parser' q' k" unfolding tree_shape_def by blast
    then have "node_data k \<noteq> NULL" by (simp add: node_for_def)
    with k(2) show ?thesis by simp
  qed
  have k4: "\<forall>q. dissectors parser' q \<noteq> NULL \<longleftrightarrow>
                (\<exists>path. enabled_path ctor st proto path \<and> last (proto # path) = q)"
  proof (intro allI iffI)
    fix q assume "dissectors parser' q \<noteq> NULL"
    then show "\<exists>path. enabled_path ctor st proto path \<and> last (proto # path) = q"
      by (rule to_path)
  next
    fix q assume "\<exists>path. enabled_path ctor st proto path \<and> last (proto # path) = q"
    then obtain path where "enabled_path ctor st proto path" and "last (proto # path) = q"
      by (elim exE conjE)
    with from_path [of path] show "dissectors parser' q \<noteq> NULL" by simp
  qed
  have k7: "\<forall>node. r = Some node \<longrightarrow>
               (\<forall>d \<in> set (tree_data node). d \<noteq> NULL \<and>
                  (\<exists>q. proto_enabled st q \<and> dissectors parser' q = d \<and> dissector_at parser' d = ctor q))"
  proof (intro allI impI ballI)
    fix node d assume r: "r = Some node" and d: "d \<in> set (tree_data node)"
    from good r have "registered parser' node" by (simp add: good_node_def)
    with d obtain q where q: "d \<noteq> NULL" "dissectors parser' q = d"
      unfolding registered_def by blast
    from parser_invD1 [OF inv, of q] q have "proto_enabled st q" "dissector_at parser' d = ctor q"
      by simp_all
    with q show "d \<noteq> NULL \<and>
        (\<exists>q. proto_enabled st q \<and> dissectors parser' q = d \<and> dissector_at parser' d = ctor q)"
      by (intro conjI exI [of _ q])
  qed
  have k8: "\<forall>p. 0 < p \<and> p \<le> allocated parser' \<longrightarrow> (\<exists>!q. dissectors parser' q = p)"
  proof (intro allI impI)
    fix p assume "0 < p \<and> p \<le> allocated parser'"
    then have "0 < p" and "p \<le> allocated parser'" by simp_all
    then show "\<exists>!q. dissectors parser' q = p" by (rule parser_invD2 [OF inv])
  qed
  have k9: "\<forall>q. dissectors parser' q \<le> allocated parser'"
  proof
    fix q
    show "dissectors parser' q \<le> allocated parser'"
    proof (cases "dissectors parser' q = NULL")
      case True
      then show ?thesis by (simp add: NULL_def)
    next
      case False
      from parser_invD1 [OF inv False] show ?thesis by simp
    qed
  qed
  show ?thesis
    apply (rule exI [of _ r])
    apply (rule exI [of _ parser'])
    apply (intro conjI)
            apply (rule run)
           apply (rule k1)
          apply (rule k2)
         apply (rule k3)
        apply (rule k4)
       apply (rule k5)
      apply (rule k6)
     apply (rule k7)
    apply (rule k8)
    apply (rule k9)
    done
qed

lemma example_enabled:
  "proto_enabled example_settings PACKET_LINK"
  "proto_enabled example_settings PACKET_IP"
  "proto_enabled example_settings PACKET_UDP"
  "proto_enabled example_settings PACKET_TCP"
  "proto_enabled example_settings PACKET_SIP"
  "proto_enabled example_settings PACKET_SDP"
  "\<not> proto_enabled example_settings PACKET_RTP"
  by (simp_all add: proto_enabled_def proto_setting_def example_settings_def setting_enabled_def
      setting_has_value_def setting_by_id_def setting_bool_new_def)

lemma example_tree:
  "\<exists>parser'. packet_parser_dissector_init 6 example_ctor example_settings (packet_parser_new ()) PACKET_LINK =
     Some (Some (GNode 1 [GNode 2 [GNode 3 [GNode 4 [GNode 5 []]], GNode 6 [GNode 4 [GNode 5 []]]]]), parser')"
  by (simp add: eval_nat_numeral dissector_new_enabled example_enabled
      dissector_alloc_def Let_def packet_parser_new_def example_ctor_def NULL_def)

lemma example_path:
  "enabled_path example_ctor example_settings PACKET_LINK [PACKET_IP, PACKET_UDP, PACKET_SIP, PACKET_SDP]"
  by (simp add: example_enabled example_ctor_def)

theorem dissector_init_enabled_only_witness:
  "\<exists>parser'.
     packet_parser_dissector_init 6 example_ctor example_settings (packet_parser_new ()) PACKET_LINK =
       Some (Some (GNode 1 [GNode 2 [GNode 3 [GNode 4 [GNode 5 []]], GNode 6 [GNode 4 [GNode 5 []]]]]),
             parser')
     \<and> dissectors parser' PACKET_RTP = NULL
     \<and> dissectors parser' PACKET_LINK = 1
     \<and> dissectors parser' PACKET_SDP \<noteq> NULL"
proof -
  have acyclic: "\<forall>proto c. c \<in> set (subdissectors (example_ctor proto)) \<longrightarrow>
                   example_rank c < example_rank proto"
  proof (intro allI impI)
    fix proto c
    assume "c \<in> set (subdissectors (example_ctor proto))"
    then show "example_rank c < example_rank proto"
      by (cases proto) (auto simp: example_ctor_def example_rank_def)
  qed
  have fuel: "example_rank PACKET_LINK < 6" by (simp add: example_rank_def)
  from dissector_init_enabled_only [OF acyclic fuel, of example_settings "()"]
  obtain r parser' where
    run: "packet_parser_dissector_init 6 example_ctor example_settings (packet_parser_new ()) PACKET_LINK
            = Some (r, parser')"
    and en: "proto_enabled example_settings PACKET_LINK \<longrightarrow>
               (\<exists>node. r = Some node \<and> node_data node = dissectors parser' PACKET_LINK)"
    and dis: "\<forall>q. \<not> proto_enabled example_settings q \<longrightarrow> dissectors parser' q = NULL"
    and reach: "\<forall>q. dissectors parser' q \<noteq> NULL \<longleftrightarrow>
                (\<exists>path. enabled_path example_ctor example_settings PACKET_LINK path
                   \<and> last (PACKET_LINK # path) = q)"
    apply (elim exE conjE)
    apply (rule that)
       apply assumption+
    done
  from example_tree obtain parser2 where
    "packet_parser_dissector_init 6 example_ctor example_settings (packet_parser_new ()) PACKET_LINK =
       Some (Some (GNode 1 [GNode 2 [GNode 3 [GNode 4 [GNode 5 []]], GNode 6 [GNode 4 [GNode 5 []]]]]),
             parser2)"
    by (rule exE)
  with run have
    r: "r = Some (GNode 1 [GNode 2 [GNode 3 [GNode 4 [GNode 5 []]], GNode 6 [GNode 4 [GNode 5 []]]]])"
    by simp
  from dis have "\<not> proto_enabled example_settings PACKET_RTP \<longrightarrow> dissectors parser' PACKET_RTP = NULL"
    by (rule spec)
  with example_enabled(7) have rtp: "dissectors parser' PACKET_RTP = NULL" by simp
  from en example_enabled(1) obtain node where
    "r = Some node" "node_data node = dissectors parser' PACKET_LINK" by blast
  with r have link: "dissectors parser' PACKET_LINK = 1" by simp
  from reach have "dissectors parser' PACKET_SDP \<noteq> NULL \<longleftrightarrow>
                (\<exists>path. enabled_path example_ctor example_settings PACKET_LINK path
                   \<and> last (PACKET_LINK # path) = PACKET_SDP)"
    by (rule spec)
  moreover have "enabled_path example_ctor example_settings PACKET_LINK
                   [PACKET_IP, PACKET_UDP, PACKET_SIP, PACKET_SDP]
                 \<and> last (PACKET_LINK # [PACKET_IP, PACKET_UDP, PACKET_SIP, PACKET_SDP]) = PACKET_SDP"
    using example_path by simp
  ultimately have sdp: "dissectors parser' PACKET_SDP \<noteq> NULL" by blast
  show ?thesis
  proof (intro exI [of _ parser'] conjI)
    show "packet_parser_dissector_init 6 example_ctor example_settings (packet_parser_new ()) PACKET_LINK =
       Some (Some (GNode 1 [GNode 2 [GNode 3 [GNode 4 [GNode 5 []]], GNode 6 [GNode 4 [GNode 5 []]]]]),
             parser')"
      using run r by simp
  qed (rule rtp, rule link, rule sdp)
qed

section \<open>Properties of the HEP capture input and output\<close>

subsection \<open>Unsupported versions\<close>

lemma atoi_1: "atoi ''1'' = 1"
  by (simp add: atoi_def strtol_def LONG_MIN_def LONG_MAX_def isspace_c_def isdigit_c_def)

lemma atoi_low_32_bits: "atoi ''4294967297'' = 1"
  by (simp add: atoi_def strtol_def LONG_MIN_def LONG_MAX_def isspace_c_def isdigit_c_def)

lemma printf_d_1: "printf_d 1 = ''1''"
  by code_simp

lemma version_1:
  "setting_get_intvalue atoi (version_settings ''1'') ''SETTING_HEP_LISTEN_VER'' = 1"
  "setting_get_intvalue atoi (version_settings ''1'') ''SETTING_HEP_SEND_VER'' = 1"
  by (simp_all add: setting_get_intvalue_def setting_by_id_def version_settings_def
      setting_string_new_def setting_number_new_def atoi_1)

lemma parse_tcp:
  "capture_hep_parse_url ''tcp:127.0.0.1:9060'' =
     Inl \<lparr>error_domain = ''capture-hep'', error_code = CAPTURE_HEP_ERROR_URL_PARSE,
          error_message = ''Unable to dissect URL tcp:127.0.0.1:9060: Unsupported protocol tcp''\<rparr>"
  by (simp add: capture_hep_parse_url_def g_strsplit_def CAPTURE_HEP_ERROR_def Let_def)

lemma capture_input_hep_version:
  assumes "setting_get_intvalue g_atoi st ''SETTING_HEP_LISTEN_VER'' = v" and "v \<noteq> 2" and "v \<noteq> 3"
  shows "snd (capture_input_hep env g_atoi st url) = []"
    and "\<exists>e. fst (capture_input_hep env g_atoi st url) = Inl e \<and> error_domain e = CAPTURE_HEP_ERROR
           \<and> (if url_accepted url
               then error_code e = CAPTURE_HEP_ERROR_VERSION
                    \<and> error_message e = ''HEP: Unsupported protocol version '' @ printf_d v
               else error_code e = CAPTURE_HEP_ERROR_URL_PARSE)"
proof -
  show "snd (capture_input_hep env g_atoi st url) = []"
    using assms by (simp add: capture_input_hep_def Let_def split: option.splits sum.splits)
  show "\<exists>e. fst (capture_input_hep env g_atoi st url) = Inl e \<and> error_domain e = CAPTURE_HEP_ERROR
           \<and> (if url_accepted url
               then error_code e = CAPTURE_HEP_ERROR_VERSION
                    \<and> error_message e = ''HEP: Unsupported protocol version '' @ printf_d v
               else error_code e = CAPTURE_HEP_ERROR_URL_PARSE)"
  proof (cases url)
    case None
    with assms show ?thesis by (simp add: capture_input_hep_def Let_def url_accepted_def)
  next
    case (Some u)
    show ?thesis
    proof (cases "capture_hep_parse_url u")
      case (Inl err)
      then have "error_domain err = CAPTURE_HEP_ERROR \<and> error_code err = CAPTURE_HEP_ERROR_URL_PARSE"
        by (auto simp: capture_hep_parse_url_def Let_def split: if_splits)
      with Inl Some assms show ?thesis by (simp add: capture_input_hep_def Let_def url_accepted_def)
    next
      case (Inr hep_url)
      with Some assms show ?thesis by (simp add: capture_input_hep_def Let_def url_accepted_def)
    qed
  qed
qed

lemma capture_output_hep_version:
  assumes "setting_get_intvalue g_atoi st ''SETTING_HEP_SEND_VER'' = v" and "v \<noteq> 2" and "v \<noteq> 3"
  shows "snd (capture_output_hep env g_atoi st url) = []"
    and "\<exists>e. fst (capture_output_hep env g_atoi st url) = Inl e \<and> error_domain e = CAPTURE_HEP_ERROR
           \<and> (if url_accepted url
               then error_code e = CAPTURE_HEP_ERROR_VERSION
                    \<and> error_message e = ''HEP client: Unsupported protocol version '' @ printf_d v
               else error_code e = CAPTURE_HEP_ERROR_URL_PARSE)"
proof -
  show "snd (capture_output_hep env g_atoi st url) = []"
    using assms by (simp add: capture_output_hep_def Let_def split: option.splits sum.splits)
  show "\<exists>e. fst (capture_output_hep env g_atoi st url) = Inl e \<and> error_domain e = CAPTURE_HEP_ERROR
           \<and> (if url_accepted url
               then error_code e = CAPTURE_HEP_ERROR_VERSION
                    \<and> error_message e = ''HEP client: Unsupported protocol version '' @ printf_d v
               else error_code e = CAPTURE_HEP_ERROR_URL_PARSE)"
  proof (cases url)
    case None
    with assms show ?thesis by (simp add: capture_output_hep_def Let_def url_accepted_def)
  next
    case (Some u)
    show ?thesis
    proof (cases "capture_hep_parse_url u")
      case (Inl err)
      then have "error_domain err = CAPTURE_HEP_ERROR \<and> error_code err = CAPTURE_HEP_ERROR_URL_PARSE"
        by (auto simp: capture_hep_parse_url_def Let_def split: if_splits)
      with Inl Some assms show ?thesis by (simp add: capture_output_hep_def Let_def url_accepted_def)
    next
      case (Inr hep_url)
      with Some assms show ?thesis by (simp add: capture_output_hep_def Let_def url_accepted_def)
    qed
  qed
qed

text \<open>
  Claim C6, as stated, fails: the constructors read the URL before they test the
  version, so with a URL that \<open>capture_hep_parse_url\<close> rejects the error returned
  is the URL error, not the version error. Here the version is 1 and the URL names
  the protocol tcp.
\<close>

theorem capture_input_hep_url_error_first:
  "setting_get_intvalue atoi (version_settings ''1'') ''SETTING_HEP_LISTEN_VER'' = 1
   \<and> capture_input_hep example_sockets atoi (version_settings ''1'') (Some ''tcp:127.0.0.1:9060'') =
       (Inl \<lparr>error_domain = ''capture-hep'', error_code = CAPTURE_HEP_ERROR_URL_PARSE,
             error_message = ''Unable to dissect URL tcp:127.0.0.1:9060: Unsupported protocol tcp''\<rparr>,
        [])"
  by (simp add: version_1 capture_input_hep_def parse_tcp Let_def)

text \<open>
  Claim C6, amended. A HEP capture input or output whose configured version is
  neither 2 nor 3 is not made: the constructor returns \<open>NULL\<close> with an error of the
  domain \<open>capture-hep\<close> and calls no socket function (no socket is made, bound or
  connected). The error is the version error, with the version in its message, when
  the constructor is called without a URL or with a URL that
  \<open>capture_hep_parse_url\<close> accepts, and the URL error otherwise.
\<close>

theorem capture_hep_unsupported_version:
  assumes "v \<noteq> 2" and "v \<noteq> 3"
  shows "(setting_get_intvalue g_atoi st ''SETTING_HEP_LISTEN_VER'' = v \<longrightarrow>
            snd (capture_input_hep env g_atoi st url) = []
          \<and> (\<exists>e. fst (capture_input_hep env g_atoi st url) = Inl e
                \<and> error_domain e = CAPTURE_HEP_ERROR
                \<and> (if url_accepted url
                    then error_code e = CAPTURE_HEP_ERROR_VERSION
                         \<and> error_message e = ''HEP: Unsupported protocol version '' @ printf_d v
                    else error_code e = CAPTURE_HEP_ERROR_URL_PARSE)))
       \<and> (setting_get_intvalue g_atoi st ''SETTING_HEP_SEND_VER'' = v \<longrightarrow>
            snd (capture_output_hep env g_atoi st url) = []
          \<and> (\<exists>e. fst (capture_output_hep env g_atoi st url) = Inl e
                \<and> error_domain e = CAPTURE_HEP_ERROR
                \<and> (if url_accepted url
                    then error_code e = CAPTURE_HEP_ERROR_VERSION
                         \<and> error_message e = ''HEP client: Unsupported protocol version '' @ printf_d v
                    else error_code e = CAPTURE_HEP_ERROR_URL_PARSE)))"
proof (intro conjI impI)
  assume v: "setting_get_intvalue g_atoi st ''SETTING_HEP_LISTEN_VER'' = v"
  show "snd (capture_input_hep env g_atoi st url) = []"
    by (rule capture_input_hep_version(1) [OF v assms])
  show "\<exists>e. fst (capture_input_hep env g_atoi st url) = Inl e
                \<and> error_domain e = CAPTURE_HEP_ERROR
                \<and> (if url_accepted url
                    then error_code e = CAPTURE_HEP_ERROR_VERSION
                         \<and> error_message e = ''HEP: Unsupported protocol version '' @ printf_d v
                    else error_code e = CAPTURE_HEP_ERROR_URL_PARSE)"
    by (rule capture_input_hep_version(2) [OF v assms])
next
  assume v: "setting_get_intvalue g_atoi st ''SETTING_HEP_SEND_VER'' = v"
  show "snd (capture_output_hep env g_atoi st url) = []"
    by (rule capture_output_hep_version(1) [OF v assms])
  show "\<exists>e. fst (capture_output_hep env g_atoi st url) = Inl e
                \<and> error_domain e = CAPTURE_HEP_ERROR
                \<and> (if url_accepted url
                    then error_code e = CAPTURE_HEP_ERROR_VERSION
                         \<and> error_message e = ''HEP client: Unsupported protocol version '' @ printf_d v
                    else error_code e = CAPTURE_HEP_ERROR_URL_PARSE)"
    by (rule capture_output_hep_version(2) [OF v assms])
qed

theorem capture_hep_unsupported_version_witness:
  "snd (capture_input_hep example_sockets atoi (version_settings ''1'') None) = []
   \<and> (\<exists>e. fst (capture_input_hep example_sockets atoi (version_settings ''1'') None) = Inl e
         \<and> error_domain e = CAPTURE_HEP_ERROR
         \<and> error_code e = CAPTURE_HEP_ERROR_VERSION
         \<and> error_message e = ''HEP: Unsupported protocol version 1'')
   \<and> snd (capture_output_hep example_sockets atoi (version_settings ''1'') None) = []
   \<and> (\<exists>e. fst (capture_output_hep example_sockets atoi (version_settings ''1'') None) = Inl e
         \<and> error_domain e = CAPTURE_HEP_ERROR
         \<and> error_code e = CAPTURE_HEP_ERROR_VERSION
         \<and> error_message e = ''HEP client: Unsupported protocol version 1'')"
proof -
  have v: "(1::int) \<noteq> 2" "(1::int) \<noteq> 3" by simp_all
  have u: "url_accepted None" by (simp add: url_accepted_def)
  from capture_hep_unsupported_version [OF v, of atoi "version_settings ''1''" example_sockets None]
  show ?thesis
    by (simp add: version_1 u printf_d_1)
qed

subsection \<open>The HEP writer\<close>

lemma capture_output_hep_write_version:
  "capture_output_hep_write pton4 pton6 (hep\<lparr>out_version := v\<rparr>) pkt
     = capture_output_hep_write pton4 pton6 hep pkt"
  by (simp add: capture_output_hep_write_def split: option.splits list.splits)

lemma capture_output_hep_write_example:
  "capture_output_hep_write example_pton4 example_pton6 (example_output v) example_hep_packet =
     Sent example_hep3_buffer"
  by (simp add: capture_output_hep_write_def example_output_def example_hep_packet_def
      example_pton4_def Let_def CaptureHepChunk_def g_htons_def g_htonl_def bytes_of_def
      sizeof_CaptureHepChunk_def sizeof_CaptureHepChunkUint8_def sizeof_CaptureHepChunkUint16_def
      sizeof_CaptureHepChunkUint32_def sizeof_CaptureHepChunkIp4_def sizeof_CaptureHepGeneric_def
      AF_INET_def drop_bit_eq_div example_hep3_buffer_def)

text \<open>
  Claim C1 fails on the code for an output configured with the version 2, which
  \<open>capture_output_hep\<close> accepts: \<open>capture_output_hep_write\<close> never reads the
  version. For the example packet it sends, with the version 2, the buffer that it
  sends with the version 3: the banner \<open>HEP3\<close>, the total length and the chunks
  of the version 3, not the fixed header of the version 2.
\<close>

theorem capture_output_hep_write_v2_sends_hep3:
  "capture_output_hep_write example_pton4 example_pton6 (example_output 2) example_hep_packet
     = Sent example_hep3_buffer
   \<and> capture_output_hep_write example_pton4 example_pton6 (example_output 3) example_hep_packet
     = Sent example_hep3_buffer
   \<and> take 4 example_hep3_buffer = bytes_of ''HEP3''"
  by (simp add: capture_output_hep_write_example) (simp add: example_hep3_buffer_def bytes_of_def)

end
